theory Spec2Isabelle
  imports Complex_Main "HOL-Library.Word" "HOL-Library.Log_Nat"
begin

unbundle bit_operations_syntax

chapter \<open>The asset rehosting pipeline of hackclub/format\<close>

text \<open>
  A shallow embedding of the Go backend: the HTTPS fetcher (\<^verbatim>\<open>internal/util/httpfetch.go\<close>),
  the MIME and key helpers of package \<^verbatim>\<open>util\<close>, the image processor
  (\<^verbatim>\<open>internal/imageproc\<close>), the storage client, the asset service and its batch handler
  (\<^verbatim>\<open>internal/assets\<close>), and the HTML transformer (package \<^verbatim>\<open>html\<close>).
  A Go \<^verbatim>\<open>string\<close> is a sequence of bytes and is modelled as \<^typ>\<open>string\<close>; a
  \<^verbatim>\<open>[]byte\<close> is a list of 8-bit words. An \<^verbatim>\<open>error\<close> return is the left summand of
  a sum type. Functions of the Go standard library and of third-party packages (DNS, the
  HTTP transport, libvips, SHA-256, the S3 client) are not part of the repository: they
  are the fields of the record \<open>env\<close>.
\<close>

type_synonym byte = "8 word"


section \<open>Data and the world outside the repository\<close>

subsection \<open>Records of the Go structs\<close>

text \<open>
  Several Go structs use the same field names (\<^verbatim>\<open>Width\<close>, \<^verbatim>\<open>Data\<close>, \<^verbatim>\<open>URL\<close>);
  a record field is a constant, so all but one of them carry a prefix.
\<close>

record parsed_url =
  Scheme :: string
  Host :: string
  RawQuery :: string
  Rest :: string

record response =
  StatusCode :: int
  ContentLength :: int
  ContentTypeHeader :: string
  Body :: "byte list"
  BodyFails :: bool

record ImageMetadata =
  Size_Width :: int
  Size_Height :: int
  Alpha :: bool

datatype ImageType = UNKNOWN | JPEG | PNG

record Options =
  Quality :: int
  StripMetadata :: bool
  opt_Width :: int
  opt_Height :: int
  Crop :: bool
  Enlarge :: bool
  Type :: ImageType

record Processor =
  jpegQuality :: int
  jpegProgressive :: bool
  pngStrip :: bool

record ProcessResult =
  Data :: "byte list"
  ContentType :: string
  Width :: int
  Height :: int
  HasAlpha :: bool
  OriginalSize :: int
  CompressedSize :: int

record ProcessInput =
  input_Data :: "byte list"
  input_ContentType :: string
  SourceURL :: string

record Asset =
  URL :: string
  MIME :: string
  asset_Width :: int
  asset_Height :: int
  Bytes :: int
  Hash :: string
  Deduped :: bool
  Key :: string

record BatchInput =
  batch_URL :: string
  batch_DataURI :: string
  batch_Data :: "byte list"
  batch_ContentType :: string

record UploadResult =
  up_Key :: string
  up_URL :: string
  ETag :: string
  up_Size :: int
  up_ContentType :: string

subsection \<open>The environment\<close>

text \<open>
  Everything the code calls that is not in the repository, one field for each function.
  \<^item> Package \<^verbatim>\<open>net/url\<close>: \<^verbatim>\<open>url_Parse\<close>, \<^verbatim>\<open>url_String\<close>, \<^verbatim>\<open>ParseQuery\<close>,
    \<^verbatim>\<open>Values_Encode\<close>, \<^verbatim>\<open>QueryUnescape\<close>; \<^verbatim>\<open>Rest\<close> of a parsed URL stands for
    the parts the code never reads.
  \<^item> Packages \<^verbatim>\<open>net\<close> and \<^verbatim>\<open>net/http\<close>: \<^verbatim>\<open>NewRequest_ok\<close>, \<^verbatim>\<open>canonicalAddr\<close> (the
    \<^verbatim>\<open>host:port\<close> that the transport dials for a URL), \<^verbatim>\<open>SplitHostPort\<close>,
    \<^verbatim>\<open>LookupIP\<close>, \<^verbatim>\<open>dialer_ok\<close> (whether \<^verbatim>\<open>dialer.DialContext\<close> connects),
    \<^verbatim>\<open>roundTrip\<close> (the server's response to a request, if any), \<^verbatim>\<open>redirect_target\<close>
    (the client's redirect policy: the next URL, if the response is a redirect that the
    client follows) and \<^verbatim>\<open>DetectContentType\<close>.
    In a response, \<^verbatim>\<open>ContentLength\<close> is \<open>-1\<close> when the server declared none,
    \<^verbatim>\<open>Body\<close> is everything the server would deliver, and \<^verbatim>\<open>BodyFails\<close> says that the
    stream ends in a read error instead of EOF.
  \<^item> libvips through \<^verbatim>\<open>bimg\<close>: \<^verbatim>\<open>bimg_Metadata\<close> and \<^verbatim>\<open>bimg_Process\<close>, \<open>None\<close> for
    an error.
  \<^item> \<^verbatim>\<open>crypto/sha256\<close> and \<^verbatim>\<open>encoding/base64\<close>: \<^verbatim>\<open>Sum256\<close>, whose result is the 32
    bytes of a 256-bit word, and \<^verbatim>\<open>base64_DecodeString\<close>.
  \<^item> The S3 client: \<^verbatim>\<open>head_fault\<close> and \<^verbatim>\<open>put_result\<close> say for each key whether
    \<^verbatim>\<open>HeadObject\<close> fails for a reason other than absence (with the error text) and
    whether \<^verbatim>\<open>PutObject\<close> fails (error text on the left, the ETag on the right).
\<close>

record env =
  url_Parse :: "string \<Rightarrow> parsed_url option"
  url_String :: "parsed_url \<Rightarrow> string"
  ParseQuery :: "string \<Rightarrow> (string \<times> string list) list"
  Values_Encode :: "(string \<times> string list) list \<Rightarrow> string"
  QueryUnescape :: "string \<Rightarrow> string option"
  NewRequest_ok :: "string \<Rightarrow> bool"
  canonicalAddr :: "string \<Rightarrow> string"
  SplitHostPort :: "string \<Rightarrow> (string \<times> string) option"
  LookupIP :: "string \<Rightarrow> byte list list option"
  dialer_ok :: "string \<Rightarrow> bool"
  roundTrip :: "string \<Rightarrow> response option"
  redirect_target :: "response \<Rightarrow> string option"
  DetectContentType :: "byte list \<Rightarrow> string"
  bimg_Metadata :: "byte list \<Rightarrow> ImageMetadata option"
  bimg_Process :: "Options \<Rightarrow> byte list \<Rightarrow> byte list option"
  Sum256 :: "byte list \<Rightarrow> 256 word"
  base64_DecodeString :: "string \<Rightarrow> byte list option"
  head_fault :: "string \<Rightarrow> string option"
  put_result :: "string \<Rightarrow> string + string"

subsection \<open>Package strings\<close>

text \<open>
  \<^verbatim>\<open>strings.HasPrefix\<close>, \<^verbatim>\<open>Contains\<close>, \<^verbatim>\<open>Index\<close>, \<^verbatim>\<open>Split\<close> on a one-byte
  separator, \<^verbatim>\<open>Replace\<close> with count 1 on a non-empty pattern, and \<^verbatim>\<open>ToLower\<close> on
  ASCII, as far as the code uses them.
\<close>

definition HasPrefix :: "string \<Rightarrow> string \<Rightarrow> bool" where
  "HasPrefix s p = (take (length p) s = p)"

fun Index :: "string \<Rightarrow> string \<Rightarrow> nat option" where
  "Index [] sub = (if sub = [] then Some 0 else None)"
| "Index (c # cs) sub =
     (if HasPrefix (c # cs) sub then Some 0
      else map_option Suc (Index cs sub))"

definition Contains :: "string \<Rightarrow> string \<Rightarrow> bool" where
  "Contains s sub = (Index s sub \<noteq> None)"

fun Split :: "string \<Rightarrow> char \<Rightarrow> string list" where
  "Split [] sep = [[]]"
| "Split (c # cs) sep =
     (if c = sep then [] # Split cs sep
      else (case Split cs sep of [] \<Rightarrow> [[c]] | p # ps \<Rightarrow> (c # p) # ps))"

definition Replace1 :: "string \<Rightarrow> string \<Rightarrow> string \<Rightarrow> string" where
  "Replace1 s old new =
     (case Index s old of
        None \<Rightarrow> s
      | Some i \<Rightarrow> take i s @ new @ drop (i + length old) s)"

definition lower_char :: "char \<Rightarrow> char" where
  "lower_char c =
     (let n = (of_char c :: nat)
      in if 65 \<le> n \<and> n \<le> 90 then char_of (n + 32) else c)"

definition ToLower :: "string \<Rightarrow> string" where
  "ToLower s = map lower_char s"


section \<open>Package util: the HTTPS fetcher\<close>

subsection \<open>isPrivateIP\<close>

text \<open>
  \<^verbatim>\<open>net.IP\<close> is a byte slice of length 4 or 16. The four methods below belong to Go's
  package \<^verbatim>\<open>net\<close>; they are written out after its source because \<^verbatim>\<open>isPrivateIP\<close>
  is built from them.
\<close>

definition To4 :: "byte list \<Rightarrow> byte list option" where
  "To4 ip =
     (if length ip = 4 then Some ip
      else if length ip = 16 \<and> take 10 ip = replicate 10 0 \<and> ip ! 10 = 0xff \<and> ip ! 11 = 0xff
      then Some (drop 12 ip)
      else None)"

definition IPv6loopback :: "byte list" where
  "IPv6loopback = replicate 15 0 @ [1]"

definition IsLoopback :: "byte list \<Rightarrow> bool" where
  "IsLoopback ip =
     (case To4 ip of
        Some ip4 \<Rightarrow> ip4 ! 0 = 127
      | None \<Rightarrow> ip = IPv6loopback)"

definition IsLinkLocalUnicast :: "byte list \<Rightarrow> bool" where
  "IsLinkLocalUnicast ip =
     (case To4 ip of
        Some ip4 \<Rightarrow> ip4 ! 0 = 169 \<and> ip4 ! 1 = 254
      | None \<Rightarrow> length ip = 16 \<and> ip ! 0 = 0xfe \<and> (ip ! 1) AND 0xc0 = 0x80)"

definition IsLinkLocalMulticast :: "byte list \<Rightarrow> bool" where
  "IsLinkLocalMulticast ip =
     (case To4 ip of
        Some ip4 \<Rightarrow> ip4 ! 0 = 224 \<and> ip4 ! 1 = 0 \<and> ip4 ! 2 = 0
      | None \<Rightarrow> length ip = 16 \<and> ip ! 0 = 0xff \<and> (ip ! 1) AND 0x0f = 0x02)"

text \<open>
  \<^verbatim>\<open>isPrivateIP\<close>, httpfetch.go lines 119 to 157. Every index is guarded as in the
  source: \<^verbatim>\<open>ip4\<close> has length 4, and the IPv6 tests check \<^verbatim>\<open>len(ip)\<close> first.
\<close>

definition isPrivateIP :: "byte list \<Rightarrow> bool" where
  "isPrivateIP ip =
     (if IsLoopback ip \<or> IsLinkLocalUnicast ip \<or> IsLinkLocalMulticast ip then True
      else if (case To4 ip of
                 Some ip4 \<Rightarrow>
                   ip4 ! 0 = 10
                   \<or> (ip4 ! 0 = 172 \<and> ip4 ! 1 \<ge> 16 \<and> ip4 ! 1 \<le> 31)
                   \<or> (ip4 ! 0 = 192 \<and> ip4 ! 1 = 168)
                   \<or> (ip4 ! 0 = 169 \<and> ip4 ! 1 = 254)
               | None \<Rightarrow> False) then True
      else if (case To4 ip of
                 Some ip4 \<Rightarrow> False
               | None \<Rightarrow>
                   (length ip \<ge> 1 \<and> (ip ! 0) AND 0xfe = 0xfc)
                   \<or> (length ip \<ge> 2 \<and> ip ! 0 = 0xfe \<and> (ip ! 1) AND 0xc0 = 0x80)) then True
      else False)"

subsection \<open>The transport with its dial hook\<close>

datatype net_event = Dial string | ReadBody nat

datatype dial_error =
    SplitHostPortError
  | LookupError
  | PrivateIPNotAllowed "byte list"
  | DialFailed

datatype client_error =
    DialError dial_error
  | TransportError
  | TooManyRedirects

datatype fetch_error =
    InvalidURL
  | OnlyHTTPSAllowed
  | CreateRequestFailed
  | FetchFailed client_error
  | HTTPStatusError int
  | FileTooLarge int
  | ReadBodyFailed

text \<open>
  The \<^verbatim>\<open>DialContext\<close> hook of \<^verbatim>\<open>NewHTTPFetcher\<close>, lines 32 to 52: the first private
  address among the resolved ones stops the dial. The trace records the call of
  \<^verbatim>\<open>dialer.DialContext\<close>, the only place where a connection is opened.
\<close>

definition DialContext :: "env \<Rightarrow> string \<Rightarrow> (dial_error + unit) \<times> net_event list" where
  "DialContext env addr =
     (case SplitHostPort env addr of
        None \<Rightarrow> (Inl SplitHostPortError, [])
      | Some (host, port) \<Rightarrow>
          (case LookupIP env host of
             None \<Rightarrow> (Inl LookupError, [])
           | Some ips \<Rightarrow>
               (case find isPrivateIP ips of
                  Some ip \<Rightarrow> (Inl (PrivateIPNotAllowed ip), [])
                | None \<Rightarrow>
                    if dialer_ok env addr then (Inr (), [Dial addr])
                    else (Inl DialFailed, [Dial addr]))))"

text \<open>
  \<^verbatim>\<open>client.Do\<close>: each request dials through the hook, and a redirect starts the next
  request; the standard client gives up after ten requests. Connection reuse is left out,
  so every request dials.
\<close>

fun client_Do :: "env \<Rightarrow> nat \<Rightarrow> string \<Rightarrow> (client_error + response) \<times> net_event list" where
  "client_Do env 0 url = (Inl TooManyRedirects, [])"
| "client_Do env (Suc n) url =
     (case DialContext env (canonicalAddr env url) of
        (Inl e, tr) \<Rightarrow> (Inl (DialError e), tr)
      | (Inr u, tr) \<Rightarrow>
          (case roundTrip env url of
             None \<Rightarrow> (Inl TransportError, tr)
           | Some resp \<Rightarrow>
               (case redirect_target env resp of
                  None \<Rightarrow> (Inr resp, tr)
                | Some url' \<Rightarrow>
                    (case client_Do env n url' of (r, tr') \<Rightarrow> (r, tr @ tr')))))"

subsection \<open>FetchURL\<close>

definition MaxFileSize :: nat where
  "MaxFileSize = 30 * 1024 * 1024"

text \<open>
  \<^verbatim>\<open>io.ReadAll(io.LimitReader(body, n))\<close>: at most \<open>n\<close> bytes are taken; the limited
  reader reports EOF once \<open>n\<close> bytes are out, so an error of the underlying stream is
  seen only when the stream is shorter than \<open>n\<close>.
\<close>

definition ReadAllLimited :: "byte list \<Rightarrow> bool \<Rightarrow> nat \<Rightarrow> (fetch_error + byte list) \<times> net_event list" where
  "ReadAllLimited body fails n =
     (if length body < n \<and> fails then (Inl ReadBodyFailed, [ReadBody (length body)])
      else (Inr (take n body), [ReadBody (min n (length body))]))"

text \<open>The part of \<^verbatim>\<open>FetchURL\<close> after \<^verbatim>\<open>client.Do\<close>, lines 93 to 115.\<close>

definition readResponse :: "env \<Rightarrow> response \<Rightarrow> (fetch_error + byte list \<times> string) \<times> net_event list" where
  "readResponse env resp =
     (if StatusCode resp \<noteq> 200 then (Inl (HTTPStatusError (StatusCode resp)), [])
      else if ContentLength resp > int MaxFileSize then (Inl (FileTooLarge (ContentLength resp)), [])
      else
        (case ReadAllLimited (Body resp) (BodyFails resp) MaxFileSize of
           (Inl e, tr) \<Rightarrow> (Inl e, tr)
         | (Inr body, tr) \<Rightarrow>
             (let contentType = ContentTypeHeader resp;
                  contentType = (if contentType = [] then DetectContentType env body else contentType)
              in (Inr (body, contentType), tr))))"

text \<open>\<^verbatim>\<open>FetchURL\<close>, lines 65 to 116.\<close>

definition FetchURL :: "env \<Rightarrow> string \<Rightarrow> (fetch_error + byte list \<times> string) \<times> net_event list" where
  "FetchURL env urlStr =
     (case url_Parse env urlStr of
        None \<Rightarrow> (Inl InvalidURL, [])
      | Some parsedURL \<Rightarrow>
          if Scheme parsedURL \<noteq> ''https'' then (Inl OnlyHTTPSAllowed, [])
          else if \<not> NewRequest_ok env urlStr then (Inl CreateRequestFailed, [])
          else
            (case client_Do env 10 urlStr of
               (Inl e, tr) \<Rightarrow> (Inl (FetchFailed e), tr)
             | (Inr resp, tr) \<Rightarrow>
                 (case readResponse env resp of (r, tr') \<Rightarrow> (r, tr @ tr'))))"


subsection \<open>The address ranges, as CIDR prefixes\<close>

text \<open>
  An address is in \<open>base/n\<close> when its first \<open>n\<close> bits are those of \<open>base\<close>: the
  two big-endian values agree after dropping the remaining bits. The forbidden ranges are
  written with this predicate, independently of the byte tests of \<^verbatim>\<open>isPrivateIP\<close>:
  IPv4 10/8, 172.16/12, 192.168/16, 169.254/16 and loopback 127/8; IPv6 fc00::/7,
  fe80::/10 and loopback ::1. Package \<^verbatim>\<open>net\<close> holds an IPv4 address in four bytes
  or, more often, in sixteen bytes that begin with the prefix ::ffff:0:0/96; both forms
  are covered.
\<close>

fun ip_value :: "byte list \<Rightarrow> nat" where
  "ip_value [] = 0"
| "ip_value (b # bs) = unat b * 256 ^ length bs + ip_value bs"

definition in_prefix :: "byte list \<Rightarrow> byte list \<Rightarrow> nat \<Rightarrow> bool" where
  "in_prefix ip base n =
     (length ip = length base \<and>
      ip_value ip div 2 ^ (8 * length ip - n) = ip_value base div 2 ^ (8 * length base - n))"

definition private_v4 :: "byte list \<Rightarrow> bool" where
  "private_v4 ip =
     (in_prefix ip [10, 0, 0, 0] 8 \<or> in_prefix ip [172, 16, 0, 0] 12
      \<or> in_prefix ip [192, 168, 0, 0] 16 \<or> in_prefix ip [169, 254, 0, 0] 16
      \<or> in_prefix ip [127, 0, 0, 0] 8)"

definition v4InV6Prefix :: "byte list" where
  "v4InV6Prefix = replicate 10 0 @ [0xff, 0xff]"

definition forbidden_destination :: "byte list \<Rightarrow> bool" where
  "forbidden_destination ip =
     ((length ip = 4 \<and> private_v4 ip)
      \<or> (length ip = 16 \<and> take 12 ip = v4InV6Prefix \<and> private_v4 (drop 12 ip))
      \<or> (length ip = 16 \<and>
        (in_prefix ip (0xfc # replicate 15 0) 7 \<or> in_prefix ip (0xfe # 0x80 # replicate 14 0) 10
         \<or> ip = replicate 15 0 @ [1])))"

section \<open>Package util: MIME helpers and storage keys\<close>

definition IsImageMIME :: "string \<Rightarrow> bool" where
  "IsImageMIME contentType =
     (contentType \<in> set [''image/jpeg'', ''image/jpg'', ''image/png'', ''image/webp'', ''image/gif'',
                          ''image/tiff'', ''image/heif'', ''image/avif''])"

definition GetImageExtension :: "string \<Rightarrow> string" where
  "GetImageExtension contentType =
     (if contentType = ''image/jpeg'' \<or> contentType = ''image/jpg'' then ''.jpg''
      else if contentType = ''image/png'' then ''.png''
      else if contentType = ''image/webp'' then ''.webp''
      else if contentType = ''image/gif'' then ''.gif''
      else if contentType = ''image/tiff'' then ''.tiff''
      else if contentType = ''image/heif'' then ''.heif''
      else if contentType = ''image/avif'' then ''.avif''
      else ''.jpg'')"

definition ShouldConvertToJPEG :: "string \<Rightarrow> bool \<Rightarrow> bool" where
  "ShouldConvertToJPEG contentType hasTransparency =
     (if hasTransparency then False
      else if contentType = ''image/png'' \<or> contentType = ''image/tiff'' \<or> contentType = ''image/webp''
      then True
      else if contentType = ''image/jpeg'' \<or> contentType = ''image/jpg'' then False
      else True)"

subsection \<open>Hex and base32\<close>

text \<open>
  The 32 bytes of a SHA-256 value, most significant first; \<^verbatim>\<open>fmt.Sprintf("%x", hash)\<close>;
  and \<^verbatim>\<open>base32.StdEncoding\<close> without padding: the bits of the input, most significant
  first, are cut into groups of five, the last group is filled with zero bits, and each
  group selects a letter of the alphabet.
\<close>

definition hash_bytes :: "256 word \<Rightarrow> byte list" where
  "hash_bytes h = map (\<lambda>i. ucast (drop_bit (8 * (31 - i)) h)) [0..<32]"

definition hex_digit :: "nat \<Rightarrow> char" where
  "hex_digit n = ''0123456789abcdef'' ! n"

definition hex_string :: "byte list \<Rightarrow> string" where
  "hex_string bs = concat (map (\<lambda>b. [hex_digit (unat b div 16), hex_digit (unat b mod 16)]) bs)"

definition byte_bits :: "byte \<Rightarrow> bool list" where
  "byte_bits b = map (bit b) [7, 6, 5, 4, 3, 2, 1, 0]"

fun groups5 :: "bool list \<Rightarrow> bool list list" where
  "groups5 (a # b # c # d # e # xs) = [a, b, c, d, e] # groups5 xs"
| "groups5 [] = []"
| "groups5 xs = [xs @ replicate (5 - length xs) False]"

definition bits_value :: "bool list \<Rightarrow> nat" where
  "bits_value bs = foldl (\<lambda>n b. 2 * n + (if b then 1 else 0)) 0 bs"

definition base32_EncodeToString :: "byte list \<Rightarrow> string" where
  "base32_EncodeToString src =
     map (\<lambda>g. ''ABCDEFGHIJKLMNOPQRSTUVWXYZ234567'' ! bits_value g) (groups5 (concat (map byte_bits src)))"

text \<open>\<^verbatim>\<open>HashBytes\<close> and \<^verbatim>\<open>Base32Key\<close>, the revision that keeps 26 characters.\<close>

definition HashBytes :: "env \<Rightarrow> byte list \<Rightarrow> string" where
  "HashBytes env data = hex_string (hash_bytes (Sum256 env data))"

definition Base32Key :: "env \<Rightarrow> byte list \<Rightarrow> string \<Rightarrow> string" where
  "Base32Key env data ext =
     (let hash = hash_bytes (Sum256 env data);
          encoded = base32_EncodeToString hash;
          key = take 26 (ToLower encoded)
      in take 2 key @ ''/'' @ drop 2 key @ ext)"


section \<open>Package imageproc\<close>

subsection \<open>float64 arithmetic\<close>

text \<open>
  \<^verbatim>\<open>calculateDimensionsWithMax\<close> computes in \<^verbatim>\<open>float64\<close>. A finite double is the
  rational it denotes; every operation returns the exact result rounded to the nearest
  number with a 53-bit significand, ties to even. \<^verbatim>\<open>ilog2 x\<close> is the exponent \<open>e\<close> with
  \<open>2\<^sup>e \<le> x < 2\<^sup>e\<^sup>+\<^sup>1\<close>. The exponent range of doubles is not modelled: with 64-bit
  integer arguments no value of the function leaves the normal range. Dividing by zero
  gives an infinity or NaN as in IEEE 754, and converting these or an out-of-range value
  to \<^verbatim>\<open>int\<close> gives the smallest 64-bit integer, as on amd64.
\<close>

definition ilog2 :: "rat \<Rightarrow> int" where
  "ilog2 x =
     (case quotient_of x of
        (p, q) \<Rightarrow> (let k = bitlen p - bitlen q in if 2 powi k \<le> x then k else k - 1))"

definition round_half_even :: "rat \<Rightarrow> int" where
  "round_half_even x =
     (let f = \<lfloor>x\<rfloor>; d = x - of_int f
      in if d < 1 / 2 then f
         else if 1 / 2 < d then f + 1
         else if even f then f else f + 1)"

definition round_f64 :: "rat \<Rightarrow> rat" where
  "round_f64 x =
     (if x = 0 then 0
      else (let ulp = 2 powi (ilog2 \<bar>x\<bar> - 52)
            in of_int (round_half_even (x / ulp)) * ulp))"

datatype f64 = Finite rat | PosInf | NegInf | NaN

definition f64_of_int :: "int \<Rightarrow> f64" where
  "f64_of_int n = Finite (round_f64 (of_int n))"

fun f64_div :: "f64 \<Rightarrow> f64 \<Rightarrow> f64" where
  "f64_div (Finite a) (Finite b) =
     (if b = 0 then (if a = 0 then NaN else if 0 < a then PosInf else NegInf)
      else Finite (round_f64 (a / b)))"
| "f64_div (Finite a) PosInf = Finite 0"
| "f64_div (Finite a) NegInf = Finite 0"
| "f64_div PosInf (Finite b) = (if 0 \<le> b then PosInf else NegInf)"
| "f64_div NegInf (Finite b) = (if 0 \<le> b then NegInf else PosInf)"
| "f64_div x y = NaN"

fun f64_mul :: "f64 \<Rightarrow> f64 \<Rightarrow> f64" where
  "f64_mul (Finite a) (Finite b) = Finite (round_f64 (a * b))"
| "f64_mul (Finite a) PosInf = (if a = 0 then NaN else if 0 < a then PosInf else NegInf)"
| "f64_mul (Finite a) NegInf = (if a = 0 then NaN else if 0 < a then NegInf else PosInf)"
| "f64_mul PosInf (Finite b) = (if b = 0 then NaN else if 0 < b then PosInf else NegInf)"
| "f64_mul NegInf (Finite b) = (if b = 0 then NaN else if 0 < b then NegInf else PosInf)"
| "f64_mul PosInf PosInf = PosInf"
| "f64_mul NegInf NegInf = PosInf"
| "f64_mul PosInf NegInf = NegInf"
| "f64_mul NegInf PosInf = NegInf"
| "f64_mul x y = NaN"

definition min_int64 :: int where
  "min_int64 = - (2 ^ 63)"

fun int_of_f64 :: "f64 \<Rightarrow> int" where
  "int_of_f64 (Finite x) =
     (let t = (if 0 \<le> x then \<lfloor>x\<rfloor> else \<lceil>x\<rceil>)
      in if min_int64 \<le> t \<and> t < 2 ^ 63 then t else min_int64)"
| "int_of_f64 x = min_int64"

subsection \<open>The processor\<close>

text \<open>
  The \<^verbatim>\<open>Processor\<close> that follows the \<^verbatim>\<open>SimpleProcessor\<close> in
  \<^verbatim>\<open>internal/imageproc/simple.go\<close>: \<^verbatim>\<open>Process\<close> (lines 117 to 232),
  \<^verbatim>\<open>calculateDimensionsWithMax\<close> (234 to 259), \<^verbatim>\<open>hasRealTransparency\<close> (264 to 277)
  and \<^verbatim>\<open>optimizePNG\<close> (280 to 287). The repository also holds two other revisions of
  this file: one has the same \<^verbatim>\<open>Process\<close> and decides transparency from the channel
  count of the metadata, the other samples pixels and returns inputs of at most 1MB
  unchanged. The development follows the revision in \<^verbatim>\<open>simple.go\<close>.
\<close>

definition calculateDimensionsWithMax :: "int \<Rightarrow> int \<Rightarrow> int \<Rightarrow> int \<times> int" where
  "calculateDimensionsWithMax originalWidth originalHeight maxDimension =
     (let aspectRatio = f64_div (f64_of_int originalWidth) (f64_of_int originalHeight);
          (newWidth, newHeight) =
            (if originalWidth > originalHeight
             then (maxDimension, int_of_f64 (f64_div (f64_of_int maxDimension) aspectRatio))
             else (int_of_f64 (f64_mul (f64_of_int maxDimension) aspectRatio), maxDimension));
          newWidth = (if newWidth > originalWidth then originalWidth else newWidth);
          newHeight = (if newHeight > originalHeight then originalHeight else newHeight)
      in (newWidth, newHeight))"

definition hasRealTransparency :: "env \<Rightarrow> byte list \<Rightarrow> bool" where
  "hasRealTransparency env data =
     (case bimg_Metadata env data of
        None \<Rightarrow> False
      | Some metadata \<Rightarrow> if \<not> Alpha metadata then False else True)"

definition optimizePNG :: "byte list \<Rightarrow> byte list \<times> string option" where
  "optimizePNG data = (data, None)"

datatype process_error =
    NotValidImageFormat
  | ReadMetadataFailed
  | ProcessJPEGFailed
  | ProcessPNGFailed

definition maxFileSize :: int where
  "maxFileSize = 5 * 1024 * 1024"

text \<open>
  \<^verbatim>\<open>Process\<close> in four steps: the validation of the content type (lines 119 to 125),
  the processing options with the resize decision (136 to 166), the result with the final
  dimensions (208 to 231), and the body that chooses the output format and encodes
  (168 to 206).
\<close>

definition validContentType :: "env \<Rightarrow> byte list \<Rightarrow> string \<Rightarrow> string option" where
  "validContentType env data originalContentType =
     (if \<not> IsImageMIME originalContentType
      then (let detectedType = DetectContentType env data
            in if \<not> IsImageMIME detectedType then None else Some detectedType)
      else Some originalContentType)"

definition processingOptions :: "Processor \<Rightarrow> ImageMetadata \<Rightarrow> int \<Rightarrow> Options" where
  "processingOptions p metadata originalSize =
     (let needsResize = (Size_Width metadata > 3840 \<or> Size_Height metadata > 3840
                         \<or> originalSize > maxFileSize);
          options = \<lparr>Quality = jpegQuality p, StripMetadata = True, opt_Width = 0, opt_Height = 0,
                     Crop = False, Enlarge = False, Type = UNKNOWN\<rparr>
      in if needsResize
         then (case calculateDimensionsWithMax (Size_Width metadata) (Size_Height metadata) 3840 of
                 (newWidth, newHeight) \<Rightarrow>
                   options\<lparr>opt_Width := newWidth, opt_Height := newHeight,
                           Crop := False, Enlarge := False\<rparr>)
         else options)"

definition finalResult :: "env \<Rightarrow> ImageMetadata \<Rightarrow> int \<Rightarrow> byte list \<Rightarrow> string \<Rightarrow> ProcessResult" where
  "finalResult env metadata originalSize processedData outputContentType =
     (case bimg_Metadata env processedData of
        None \<Rightarrow>
          \<lparr>Data = processedData, ContentType = outputContentType,
           Width = Size_Width metadata, Height = Size_Height metadata,
           HasAlpha = Alpha metadata, OriginalSize = originalSize,
           CompressedSize = int (length processedData)\<rparr>
      | Some finalMetadata \<Rightarrow>
          \<lparr>Data = processedData, ContentType = outputContentType,
           Width = Size_Width finalMetadata, Height = Size_Height finalMetadata,
           HasAlpha = Alpha metadata, OriginalSize = originalSize,
           CompressedSize = int (length processedData)\<rparr>)"

definition Process :: "env \<Rightarrow> Processor \<Rightarrow> byte list \<Rightarrow> string \<Rightarrow> process_error + ProcessResult" where
  "Process env p data originalContentType0 =
     (case validContentType env data originalContentType0 of
        None \<Rightarrow> Inl NotValidImageFormat
      | Some originalContentType \<Rightarrow>
          (case bimg_Metadata env data of
             None \<Rightarrow> Inl ReadMetadataFailed
           | Some metadata \<Rightarrow>
               (let originalSize = int (length data);
                    hasAlpha = Alpha metadata;
                    options = processingOptions p metadata originalSize;
                    shouldConvertToJPEG =
                      ShouldConvertToJPEG originalContentType (hasAlpha \<and> hasRealTransparency env data)
                in if shouldConvertToJPEG \<or> originalContentType = ''image/jpeg''
                      \<or> originalContentType = ''image/jpg''
                   then (case bimg_Process env (options\<lparr>Type := JPEG\<rparr>) data of
                           None \<Rightarrow> Inl ProcessJPEGFailed
                         | Some processedData \<Rightarrow>
                             Inr (finalResult env metadata originalSize processedData ''image/jpeg''))
                   else (let options = options\<lparr>Type := PNG\<rparr>;
                             options = (if pngStrip p then options\<lparr>StripMetadata := True\<rparr> else options)
                         in case bimg_Process env options data of
                              None \<Rightarrow> Inl ProcessPNGFailed
                            | Some processedData \<Rightarrow>
                                Inr (finalResult env metadata originalSize
                                       (fst (optimizePNG processedData)) ''image/png'')))))"


section \<open>Package storage: the R2 client\<close>

text \<open>
  The bucket is a map from keys to stored objects. \<^verbatim>\<open>put_calls\<close> lists the keys of
  all \<^verbatim>\<open>PutObject\<close> requests made so far. \<^verbatim>\<open>HeadObject\<close> of \<^verbatim>\<open>s3.Client\<close>
  succeeds on a key of the bucket and fails with a not-found error on any other,
  unless the environment injects another failure.
\<close>

record R2Client =
  publicBaseURL :: string
  objects :: "string \<rightharpoonup> byte list \<times> string"
  put_calls :: "string list"

definition not_found_error :: string where
  "not_found_error = ''operation error S3: HeadObject, https response error StatusCode: 404, api error NotFound: Not Found''"

definition HeadObject :: "env \<Rightarrow> R2Client \<Rightarrow> string \<Rightarrow> string + unit" where
  "HeadObject env r key =
     (case head_fault env key of
        Some err \<Rightarrow> Inl err
      | None \<Rightarrow> (case objects r key of Some obj \<Rightarrow> Inr () | None \<Rightarrow> Inl not_found_error))"

definition ObjectExists :: "env \<Rightarrow> R2Client \<Rightarrow> string \<Rightarrow> string + bool" where
  "ObjectExists env r key =
     (case HeadObject env r key of
        Inl err \<Rightarrow>
          if Contains err ''404'' \<or> Contains err ''NotFound'' \<or> Contains err ''NoSuchKey''
          then Inr False
          else Inl err
      | Inr u \<Rightarrow> Inr True)"

definition GetPublicURL :: "R2Client \<Rightarrow> string \<Rightarrow> string" where
  "GetPublicURL r key = publicBaseURL r @ ''/'' @ key"

definition Upload :: "env \<Rightarrow> R2Client \<Rightarrow> string \<Rightarrow> byte list \<Rightarrow> string \<Rightarrow> (string + UploadResult) \<times> R2Client" where
  "Upload env r key data contentType =
     (case put_result env key of
        Inl err \<Rightarrow> (Inl (''failed to upload to R2: '' @ err), r\<lparr>put_calls := put_calls r @ [key]\<rparr>)
      | Inr etag \<Rightarrow>
          (Inr \<lparr>up_Key = key, up_URL = GetPublicURL r key, ETag = etag,
                up_Size = int (length data), up_ContentType = contentType\<rparr>,
           r\<lparr>objects := (objects r)(key \<mapsto> (data, contentType)), put_calls := put_calls r @ [key]\<rparr>))"


section \<open>Package assets: the service\<close>

datatype data_uri_error =
    InvalidDataURIFormat
  | MissingCommaSeparator
  | Base64DecodeFailed
  | URLDecodeFailed

datatype service_error =
    FetchImageFailed fetch_error
  | ParseDataURIFailed data_uri_error
  | ProcessImageFailed process_error
  | ObjectExistsCheckFailed string
  | UploadToStorageFailed string
  | NoValidInput nat
  | ProcessItemFailed nat service_error

text \<open>The state of a \<^verbatim>\<open>Service\<close> is its processor and its storage client.\<close>

record Service =
  processor :: Processor
  storage :: R2Client

text \<open>\<^verbatim>\<open>parseDataURI\<close>, service.go lines 186 to 241.\<close>

definition parseDataURI :: "env \<Rightarrow> string \<Rightarrow> data_uri_error + byte list \<times> string" where
  "parseDataURI env dataURI =
     (if \<not> HasPrefix dataURI ''data:'' then Inl InvalidDataURIFormat
      else
        (let content = drop 5 dataURI
         in case Index content '','' of
              None \<Rightarrow> Inl MissingCommaSeparator
            | Some commaIndex \<Rightarrow>
                (let header = take commaIndex content;
                     encodedData = drop (commaIndex + 1) content;
                     parts = Split header CHR '';'';
                     contentType = (if length parts > 0 \<and> hd parts \<noteq> [] then hd parts else ''text/plain'');
                     isBase64 = (''base64'' \<in> set (tl parts))
                 in if isBase64
                    then (case base64_DecodeString env encodedData of
                            None \<Rightarrow> Inl Base64DecodeFailed
                          | Some data \<Rightarrow> Inr (data, contentType))
                    else (case QueryUnescape env encodedData of
                            None \<Rightarrow> Inl URLDecodeFailed
                          | Some decoded \<Rightarrow> Inr (map (\<lambda>c. of_nat (of_char c)) decoded, contentType)))))"

text \<open>
  \<^verbatim>\<open>ProcessFromData\<close>, service.go lines 85 to 141. The result carries the service with
  its storage client as the call leaves it.
\<close>

definition ProcessFromData :: "env \<Rightarrow> Service \<Rightarrow> ProcessInput \<Rightarrow> (service_error + Asset) \<times> Service" where
  "ProcessFromData env s input =
     (case Process env (processor s) (input_Data input) (input_ContentType input) of
        Inl err \<Rightarrow> (Inl (ProcessImageFailed err), s)
      | Inr result \<Rightarrow>
          (let hashStr = hex_string (hash_bytes (Sum256 env (Data result)));
               ext = GetImageExtension (ContentType result);
               key = Base32Key env (Data result) ext
           in case ObjectExists env (storage s) key of
                Inl err \<Rightarrow> (Inl (ObjectExistsCheckFailed err), s)
              | Inr exists \<Rightarrow>
                  (let mk = (\<lambda>publicURL deduped.
                         \<lparr>URL = publicURL, MIME = ContentType result,
                          asset_Width = Width result, asset_Height = Height result,
                          Bytes = CompressedSize result, Hash = ''sha256:'' @ hashStr,
                          Deduped = deduped, Key = key\<rparr>)
                   in if exists
                      then (Inr (mk (GetPublicURL (storage s) key) True), s)
                      else (case Upload env (storage s) key (Data result) (ContentType result) of
                              (Inl err, r) \<Rightarrow> (Inl (UploadToStorageFailed err), s\<lparr>storage := r\<rparr>)
                            | (Inr uploadResult, r) \<Rightarrow>
                                (Inr (mk (up_URL uploadResult) False), s\<lparr>storage := r\<rparr>)))))"

text \<open>\<^verbatim>\<open>ProcessFromURL\<close> (lines 51 to 65) and \<^verbatim>\<open>ProcessFromDataURI\<close> (68 to 82).\<close>

definition ProcessFromURL :: "env \<Rightarrow> Service \<Rightarrow> string \<Rightarrow> (service_error + Asset) \<times> Service" where
  "ProcessFromURL env s imageURL =
     (case fst (FetchURL env imageURL) of
        Inl err \<Rightarrow> (Inl (FetchImageFailed err), s)
      | Inr (data, contentType) \<Rightarrow>
          ProcessFromData env s
            \<lparr>input_Data = data, input_ContentType = contentType, SourceURL = imageURL\<rparr>)"

definition ProcessFromDataURI :: "env \<Rightarrow> Service \<Rightarrow> string \<Rightarrow> (service_error + Asset) \<times> Service" where
  "ProcessFromDataURI env s dataURI =
     (case parseDataURI env dataURI of
        Inl err \<Rightarrow> (Inl (ParseDataURIFailed err), s)
      | Inr (data, contentType) \<Rightarrow>
          ProcessFromData env s
            \<lparr>input_Data = data, input_ContentType = contentType, SourceURL = ''data:''\<rparr>)"

subsection \<open>ProcessBatch\<close>

text \<open>
  The \<^verbatim>\<open>switch\<close> of the loop body, service.go lines 153 to 166, for the item at
  index \<open>i\<close>.
\<close>

definition processItem :: "env \<Rightarrow> Service \<Rightarrow> nat \<Rightarrow> BatchInput \<Rightarrow> (service_error + Asset) \<times> Service" where
  "processItem env s i input =
     (if batch_URL input \<noteq> [] then ProcessFromURL env s (batch_URL input)
      else if batch_DataURI input \<noteq> [] then ProcessFromDataURI env s (batch_DataURI input)
      else if length (batch_Data input) > 0
      then ProcessFromData env s
             \<lparr>input_Data = batch_Data input, input_ContentType = batch_ContentType input,
              SourceURL = ''upload''\<rparr>
      else (Inl (NoValidInput i), s))"

text \<open>
  The loop of \<^verbatim>\<open>ProcessBatch\<close>, lines 147 to 174, from index \<open>i\<close> on, with the assets
  collected so far. The third component is the list of indices for which the loop body
  was entered: the code logs ``processing batch item'' with the index there.
\<close>

fun batchLoop :: "env \<Rightarrow> Service \<Rightarrow> nat \<Rightarrow> Asset list \<Rightarrow> BatchInput list
    \<Rightarrow> (service_error + Asset list) \<times> Service \<times> nat list" where
  "batchLoop env s i assets [] = (Inr assets, s, [])"
| "batchLoop env s i assets (input # inputs) =
     (case processItem env s i input of
        (Inl err, s') \<Rightarrow> (Inl (ProcessItemFailed i err), s', [i])
      | (Inr asset, s') \<Rightarrow>
          (case batchLoop env s' (Suc i) (assets @ [asset]) inputs of
             (r, s'', lg) \<Rightarrow> (r, s'', i # lg)))"

definition ProcessBatch :: "env \<Rightarrow> Service \<Rightarrow> BatchInput list
    \<Rightarrow> (service_error + Asset list) \<times> Service \<times> nat list" where
  "ProcessBatch env s inputs = batchLoop env s 0 [] inputs"

subsection \<open>HandleBatch\<close>

text \<open>
  handler.go lines 104 to 139. The argument is the outcome of decoding the JSON body:
  \<open>None\<close> when it is not valid JSON, else the items. The response is the status with
  its payload.
\<close>

datatype batch_response =
    BadRequest string
  | InternalServerError service_error
  | OK "Asset list" nat

definition maxBatchSize :: nat where
  "maxBatchSize = 20"

definition HandleBatch :: "env \<Rightarrow> Service \<Rightarrow> BatchInput list option
    \<Rightarrow> batch_response \<times> Service \<times> nat list" where
  "HandleBatch env s decoded =
     (case decoded of
        None \<Rightarrow> (BadRequest ''Invalid JSON'', s, [])
      | Some items \<Rightarrow>
          if length items = 0 then (BadRequest ''No items provided'', s, [])
          else if length items > maxBatchSize then (BadRequest ''Batch size too large (max 20)'', s, [])
          else (case ProcessBatch env s items of
                  (Inl err, s', lg) \<Rightarrow> (InternalServerError err, s', lg)
                | (Inr assets, s', lg) \<Rightarrow> (OK assets (length assets), s', lg)))"


section \<open>Package regexp, as far as package html uses it\<close>

text \<open>
  Go's \<^verbatim>\<open>regexp\<close> finds the leftmost match and, among the matches that start there,
  the one a backtracking search would find first: a greedy star tries one more iteration
  before it tries to stop, a lazy star the other way round. The expressions of package
  \<^verbatim>\<open>html\<close> are built from literals, character classes, \<^verbatim>\<open>.\<close>, the greedy
  \<^verbatim>\<open>*\<close>, \<^verbatim>\<open>+\<close> and \<^verbatim>\<open>{n,}\<close>, the lazy \<^verbatim>\<open>*?\<close>, capturing groups that are
  neither nested nor repeated, and the anchors \<^verbatim>\<open>^\<close> and \<^verbatim>\<open>$\<close>. All literals are
  ASCII, so matching bytes gives the same matches as matching runes. A character class
  is a list of ranges; \<^verbatim>\<open>.\<close> is every character but the newline, while a negated
  class contains the newline.
\<close>

datatype regex =
    Lit string
  | In "(char \<times> char) list"
  | NotIn "(char \<times> char) list"
  | Dot
  | Seq regex regex
  | Star regex
  | LazyStar regex
  | Plus regex
  | AtLeast nat regex
  | Group regex
  | Bol
  | Eol

definition in_class :: "char \<Rightarrow> (char \<times> char) list \<Rightarrow> bool" where
  "in_class c rs = list_ex (\<lambda>(lo, hi). (of_char lo :: nat) \<le> of_char c \<and> (of_char c :: nat) \<le> of_char hi) rs"

definition newline :: char where
  "newline = CHR 0x0A"

text \<open>
  A state of the search is the offset reached, the rest of the text and the captures made
  so far. \<^verbatim>\<open>steps r st\<close> lists the states in which a match of \<open>r\<close> from \<open>st\<close>
  can end, in the order in which the search tries them. An iteration of a star must
  consume a character, so at most as many iterations as characters are left.
\<close>

type_synonym mstate = "nat \<times> string \<times> string list"

fun iterate :: "bool \<Rightarrow> (mstate \<Rightarrow> mstate list) \<Rightarrow> nat \<Rightarrow> mstate \<Rightarrow> mstate list" where
  "iterate greedy f 0 st = [st]"
| "iterate greedy f (Suc n) st =
     (let further = concat (map (iterate greedy f n) (filter (\<lambda>st'. fst st < fst st') (f st)))
      in if greedy then further @ [st] else st # further)"

fun repeat :: "nat \<Rightarrow> (mstate \<Rightarrow> mstate list) \<Rightarrow> mstate \<Rightarrow> mstate list" where
  "repeat 0 f st = [st]"
| "repeat (Suc n) f st = concat (map (repeat n f) (f st))"

primrec steps :: "regex \<Rightarrow> mstate \<Rightarrow> mstate list" where
  "steps (Lit l) st =
     (case st of (p, s, c) \<Rightarrow>
        if take (length l) s = l then [(p + length l, drop (length l) s, c)] else [])"
| "steps (In rs) st =
     (case st of (p, s, c) \<Rightarrow>
        (case s of [] \<Rightarrow> [] | x # xs \<Rightarrow> if in_class x rs then [(Suc p, xs, c)] else []))"
| "steps (NotIn rs) st =
     (case st of (p, s, c) \<Rightarrow>
        (case s of [] \<Rightarrow> [] | x # xs \<Rightarrow> if in_class x rs then [] else [(Suc p, xs, c)]))"
| "steps Dot st =
     (case st of (p, s, c) \<Rightarrow>
        (case s of [] \<Rightarrow> [] | x # xs \<Rightarrow> if x = newline then [] else [(Suc p, xs, c)]))"
| "steps (Seq a b) st = concat (map (steps b) (steps a st))"
| "steps (Star a) st = iterate True (steps a) (length (fst (snd st))) st"
| "steps (LazyStar a) st = iterate False (steps a) (length (fst (snd st))) st"
| "steps (Plus a) st =
     concat (map (\<lambda>st'. iterate True (steps a) (length (fst (snd st'))) st') (steps a st))"
| "steps (AtLeast n a) st =
     concat (map (\<lambda>st'. iterate True (steps a) (length (fst (snd st'))) st') (repeat n (steps a) st))"
| "steps (Group a) st =
     (case st of (p, s, c) \<Rightarrow>
        map (\<lambda>(p', s', c'). (p', s', c' @ [take (p' - p) s])) (steps a st))"
| "steps Bol st = (case st of (p, s, c) \<Rightarrow> if p = 0 then [st] else [])"
| "steps Eol st = (case st of (p, s, c) \<Rightarrow> if s = [] then [st] else [])"

fun seq :: "regex list \<Rightarrow> regex" where
  "seq [] = Lit []"
| "seq [r] = r"
| "seq (r # rs) = Seq r (seq rs)"

text \<open>
  \<^verbatim>\<open>NumSubexp\<close> is the number of groups of an expression. In an expression none of
  whose groups is under a repetition, every match makes exactly one capture for each
  group.
\<close>

fun NumSubexp :: "regex \<Rightarrow> nat" where
  "NumSubexp (Seq a b) = NumSubexp a + NumSubexp b"
| "NumSubexp (Star a) = NumSubexp a"
| "NumSubexp (LazyStar a) = NumSubexp a"
| "NumSubexp (Plus a) = NumSubexp a"
| "NumSubexp (AtLeast n a) = NumSubexp a"
| "NumSubexp (Group a) = Suc (NumSubexp a)"
| "NumSubexp r = 0"

fun unrepeated :: "regex \<Rightarrow> bool" where
  "unrepeated (Seq a b) = (unrepeated a \<and> unrepeated b)"
| "unrepeated (Star a) = (NumSubexp a = 0 \<and> unrepeated a)"
| "unrepeated (LazyStar a) = (NumSubexp a = 0 \<and> unrepeated a)"
| "unrepeated (Plus a) = (NumSubexp a = 0 \<and> unrepeated a)"
| "unrepeated (AtLeast n a) = (NumSubexp a = 0 \<and> unrepeated a)"
| "unrepeated (Group a) = unrepeated a"
| "unrepeated r = True"

text \<open>
  A match is the matched text with the texts of the groups. \<^verbatim>\<open>matchAt\<close> is the first
  match that starts at the current offset, with its length; \<^verbatim>\<open>findAll\<close> scans from
  the left and resumes after each match, one character later when the match is empty.
  The result lists, for every match, the text skipped before it and the match; the text
  after the last match comes with it.
\<close>

definition matchAt :: "regex \<Rightarrow> nat \<Rightarrow> string \<Rightarrow> (nat \<times> string list) option" where
  "matchAt r p s =
     (case steps r (p, s, []) of
        [] \<Rightarrow> None
      | (p', s', c) # others \<Rightarrow> Some (p' - p, c))"

function findAll :: "regex \<Rightarrow> nat \<Rightarrow> string \<Rightarrow> string \<Rightarrow> (string \<times> string \<times> string list) list \<times> string" where
  "findAll r p skipped s =
     (case matchAt r p s of
        Some (n, c) \<Rightarrow>
          (if s = [] then ([(skipped, [], c)], [])
           else if n = 0
           then (case findAll r (Suc p) [hd s] (tl s) of
                   (ms, rest) \<Rightarrow> ((skipped, [], c) # ms, rest))
           else (case findAll r (p + n) [] (drop n s) of
                   (ms, rest) \<Rightarrow> ((skipped, take n s, c) # ms, rest)))
      | None \<Rightarrow>
          (case s of
             [] \<Rightarrow> ([], skipped)
           | x # xs \<Rightarrow> findAll r (Suc p) (skipped @ [x]) xs))"
  by pat_completeness auto
termination
  by (relation "measure (\<lambda>(r, p, skipped, s). length s)") (auto simp: neq_Nil_conv)

text \<open>
  \<^verbatim>\<open>FindAllString\<close>, \<^verbatim>\<open>FindAllStringSubmatch\<close> (the match followed by its groups),
  \<^verbatim>\<open>FindStringSubmatch\<close>, \<^verbatim>\<open>MatchString\<close>, \<^verbatim>\<open>ReplaceAllStringFunc\<close> and
  \<^verbatim>\<open>ReplaceAllString\<close>.
\<close>

definition FindAllStringSubmatch :: "regex \<Rightarrow> string \<Rightarrow> string list list" where
  "FindAllStringSubmatch r s = map (\<lambda>(skipped, m, c). m # c) (fst (findAll r 0 [] s))"

definition FindAllString :: "regex \<Rightarrow> string \<Rightarrow> string list" where
  "FindAllString r s = map (\<lambda>(skipped, m, c). m) (fst (findAll r 0 [] s))"

definition FindStringSubmatch :: "regex \<Rightarrow> string \<Rightarrow> string list" where
  "FindStringSubmatch r s = (case FindAllStringSubmatch r s of [] \<Rightarrow> [] | m # ms \<Rightarrow> m)"

definition MatchString :: "regex \<Rightarrow> string \<Rightarrow> bool" where
  "MatchString r s = (FindAllStringSubmatch r s \<noteq> [])"

definition replaceAll :: "regex \<Rightarrow> string \<Rightarrow> (string list \<Rightarrow> string) \<Rightarrow> string" where
  "replaceAll r s f =
     (case findAll r 0 [] s of
        (ms, rest) \<Rightarrow> concat (map (\<lambda>(skipped, m, c). skipped @ f (m # c)) ms) @ rest)"

definition ReplaceAllStringFunc :: "regex \<Rightarrow> string \<Rightarrow> (string \<Rightarrow> string) \<Rightarrow> string" where
  "ReplaceAllStringFunc r s f = replaceAll r s (\<lambda>m. f (hd m))"

text \<open>
  The template of \<^verbatim>\<open>ReplaceAllString\<close>: \<^verbatim>\<open>$$\<close> is a dollar sign, \<^verbatim>\<open>$name\<close> and
  \<^verbatim>\<open>${name}\<close> stand for a group, where the name is the longest run of letters, digits
  and underscores; a decimal name without a leading zero is the number of a group, and a
  group that does not exist is the empty string; a dollar sign without a name stays. No
  expression of the package names a group.
\<close>

definition is_word_char :: "char \<Rightarrow> bool" where
  "is_word_char c = in_class c [(CHR ''0'', CHR ''9''), (CHR ''A'', CHR ''Z''), (CHR ''a'', CHR ''z''), (CHR ''_'', CHR ''_'')]"

definition is_digit :: "char \<Rightarrow> bool" where
  "is_digit c = in_class c [(CHR ''0'', CHR ''9'')]"

definition group_number :: "string \<Rightarrow> nat option" where
  "group_number name =
     (if list_all is_digit name \<and> \<not> (hd name = CHR ''0'' \<and> length name > 1) \<and> length name \<le> 9
      then Some (foldl (\<lambda>n c. 10 * n + (of_char c - 48)) 0 name)
      else None)"

definition extract_name :: "string \<Rightarrow> (string \<times> string) option" where
  "extract_name str =
     (if str = [] then None
      else (let brace = (hd str = CHR ''{'');
                str = (if brace then tl str else str);
                name = takeWhile is_word_char str;
                rest = dropWhile is_word_char str
            in if name = [] then None
               else if brace
               then (if rest = [] \<or> hd rest \<noteq> CHR ''}'' then None else Some (name, tl rest))
               else Some (name, rest)))"

lemma extract_name_shorter:
  assumes "extract_name str = Some (name, rest)"
  shows "length rest \<le> length str"
proof -
  have d: "length (dropWhile is_word_char xs) \<le> length xs" for xs
    by (rule length_dropWhile_le)
  have t: "length (dropWhile is_word_char (tl xs)) \<le> length xs" for xs
    using d[of "tl xs"] by simp
  show ?thesis
    using assms d[of str] t[of str]
    by (auto simp: extract_name_def Let_def split: if_splits)
qed

function expand :: "string \<Rightarrow> string list \<Rightarrow> string" where
  "expand template m =
     (case template of
        [] \<Rightarrow> []
      | x # after \<Rightarrow>
          if x \<noteq> CHR ''$'' then x # expand after m
          else if after \<noteq> [] \<and> hd after = CHR ''$'' then CHR ''$'' # expand (tl after) m
          else (case extract_name after of
                  None \<Rightarrow> CHR ''$'' # expand after m
                | Some (name, rest) \<Rightarrow>
                    (case group_number name of
                       Some num \<Rightarrow> (if num < length m then m ! num else []) @ expand rest m
                     | None \<Rightarrow> expand rest m)))"
  by pat_completeness auto
termination
  by (relation "measure (\<lambda>(template, m). length template)")
    (auto simp: neq_Nil_conv less_Suc_eq_le dest!: extract_name_shorter)

definition ReplaceAllString :: "regex \<Rightarrow> string \<Rightarrow> string \<Rightarrow> string" where
  "ReplaceAllString r s repl = replaceAll r s (expand repl)"


section \<open>Package html: the transformer\<close>

record Stats =
  ImagesProcessed :: nat
  ImagesRehosted :: nat
  StylesRemoved :: nat
  ScriptsRemoved :: nat

text \<open>
  The messages are Go strings made with \<^verbatim>\<open>fmt.Sprintf\<close>; here each format is a
  constructor and the formatted values are its arguments.
\<close>

datatype message =
    GmailDraftImagesDetected
  | GmailAttachmentImageDetected
  | FailedToRehostImage string service_error
  | ImageRehostedFromTo string string
  | ImageDeduplicated string
  | ImageRehosted string

record TransformRequest =
  req_HTML :: string

record TransformResponse =
  HTML :: string
  Messages :: "message list"
  resp_Stats :: Stats

subsection \<open>The expressions\<close>

definition dquote :: char where
  \<open>dquote = CHR ''"''\<close>

definition squote :: char where
  "squote = CHR 0x27"

definition not_gt :: regex where
  "not_gt = NotIn [(CHR ''>'', CHR ''>'')]"

definition quote :: regex where
  "quote = In [(dquote, dquote), (squote, squote)]"

definition not_quote :: regex where
  "not_quote = NotIn [(dquote, dquote), (squote, squote)]"

definition not_dquote :: regex where
  "not_dquote = NotIn [(dquote, dquote)]"

definition space :: regex where
  "space = In [(CHR 0x09, CHR 0x0A), (CHR 0x0C, CHR 0x0D), (CHR '' '', CHR '' '')]"

definition word :: regex where
  "word = In [(CHR ''0'', CHR ''9''), (CHR ''A'', CHR ''Z''), (CHR ''_'', CHR ''_''), (CHR ''a'', CHR ''z'')]"

text \<open>\<^verbatim>\<open><img[^>]*src=["']([^"']+)["'][^>]*>\<close> and \<^verbatim>\<open>src=["']([^"']+)["']\<close>\<close>

definition imgRegex :: regex where
  "imgRegex = seq [Lit ''<img'', Star not_gt, Lit ''src='', quote, Group (Plus not_quote), quote,
                   Star not_gt, Lit ''>'']"

definition srcRegex :: regex where
  "srcRegex = seq [Lit ''src='', quote, Group (Plus not_quote), quote]"

text \<open>\<^verbatim>\<open>style=["'][^"']*["']\<close>\<close>

definition styleRegex :: regex where
  "styleRegex = seq [Lit ''style='', quote, Star not_quote, quote]"

text \<open>\<^verbatim>\<open><script[^>]*>.*?</script>\<close> and \<^verbatim>\<open><style[^>]*>.*?</style>\<close>\<close>

definition scriptRegex :: regex where
  "scriptRegex = seq [Lit ''<script'', Star not_gt, Lit ''>'', LazyStar Dot, Lit ''</script>'']"

definition styleTagRegex :: regex where
  "styleTagRegex = seq [Lit ''<style'', Star not_gt, Lit ''>'', LazyStar Dot, Lit ''</style>'']"

text \<open>
  \<^verbatim>\<open>\s+on\w+="[^"]*"\<close>, \<^verbatim>\<open>href="javascript:[^"]*"\<close>, \<^verbatim>\<open>\s+class="([^"]*)"\<close> and
  \<^verbatim>\<open>\s+id="[^"]*"\<close>
\<close>

definition eventRegex :: regex where
  \<open>eventRegex = seq [Plus space, Lit ''on'', Plus word, Lit ''="'', Star not_dquote, Lit ''"'']\<close>

definition jsLinkRegex :: regex where
  \<open>jsLinkRegex = seq [Lit ''href="javascript:'', Star not_dquote, Lit ''"'']\<close>

definition classRegex :: regex where
  \<open>classRegex = seq [Plus space, Lit ''class="'', Group (Star not_dquote), Lit ''"'']\<close>

definition idRegex :: regex where
  \<open>idRegex = seq [Plus space, Lit ''id="'', Star not_dquote, Lit ''"'']\<close>

text \<open>\<^verbatim>\<open><a[^>]*href="([^"]+)"[^>]*>\<close> and \<^verbatim>\<open>href="([^"]+)"\<close>\<close>

definition linkRegex :: regex where
  \<open>linkRegex = seq [Lit ''<a'', Star not_gt, Lit ''href="'', Group (Plus not_dquote), Lit ''"'',
                    Star not_gt, Lit ''>'']\<close>

definition hrefRegex :: regex where
  \<open>hrefRegex = seq [Lit ''href="'', Group (Plus not_dquote), Lit ''"'']\<close>

text \<open>\<^verbatim>\<open>^[a-zA-Z0-9._%+-]+@[a-zA-Z0-9.-]+\.[a-zA-Z]{2,}$\<close>\<close>

definition emailRegex :: regex where
  "emailRegex =
     seq [Bol,
          Plus (In [(CHR ''a'', CHR ''z''), (CHR ''A'', CHR ''Z''), (CHR ''0'', CHR ''9''),
                    (CHR ''.'', CHR ''.''), (CHR ''_'', CHR ''_''), (CHR ''%'', CHR ''%''),
                    (CHR ''+'', CHR ''+''), (CHR ''-'', CHR ''-'')]),
          Lit ''@'',
          Plus (In [(CHR ''a'', CHR ''z''), (CHR ''A'', CHR ''Z''), (CHR ''0'', CHR ''9''),
                    (CHR ''.'', CHR ''.''), (CHR ''-'', CHR ''-'')]),
          Lit ''.'',
          AtLeast 2 (In [(CHR ''a'', CHR ''z''), (CHR ''A'', CHR ''Z'')]),
          Eol]"

text \<open>
  \<^verbatim>\<open><p[^>]*>(.*?)</p>\<close>, \<^verbatim>\<open><div[^>]*>(.*?)</div>\<close>,
  \<^verbatim>\<open><(h[1-6])[^>]*>(.*?)</h[1-6]>\<close>, \<^verbatim>\<open><blockquote[^>]*>(.*?)</blockquote>\<close> and
  \<^verbatim>\<open><a([^>]*?)>\<close>
\<close>

definition paragraphRegex :: regex where
  "paragraphRegex = seq [Lit ''<p'', Star not_gt, Lit ''>'', Group (LazyStar Dot), Lit ''</p>'']"

definition divRegex :: regex where
  "divRegex = seq [Lit ''<div'', Star not_gt, Lit ''>'', Group (LazyStar Dot), Lit ''</div>'']"

definition headingRegex :: regex where
  "headingRegex =
     seq [Lit ''<'', Group (Seq (Lit ''h'') (In [(CHR ''1'', CHR ''6'')])), Star not_gt, Lit ''>'',
          Group (LazyStar Dot), Lit ''</h'', In [(CHR ''1'', CHR ''6'')], Lit ''>'']"

definition blockquoteRegex :: regex where
  "blockquoteRegex =
     seq [Lit ''<blockquote'', Star not_gt, Lit ''>'', Group (LazyStar Dot), Lit ''</blockquote>'']"

definition anchorRegex :: regex where
  "anchorRegex = seq [Lit ''<a'', Group (LazyStar not_gt), Lit ''>'']"

subsection \<open>processImages\<close>

text \<open>\<^verbatim>\<open>shouldRehostImage\<close>, lines 839 to 882 of the file that holds package html.\<close>

definition shouldRehostImage :: "env \<Rightarrow> string \<Rightarrow> bool" where
  "shouldRehostImage env srcURL =
     (if HasPrefix srcURL ''data:'' then True
      else if HasPrefix srcURL ''blob:'' then False
      else (case url_Parse env srcURL of
              None \<Rightarrow> False
            | Some parsedURL \<Rightarrow>
                if Scheme parsedURL \<noteq> ''https'' then True
                else (let host = Host parsedURL
                      in if Contains host ''amazonaws.com'' \<or> Contains host ''googleusercontent.com''
                            \<or> Contains host ''mail.google.com'' \<or> Contains host ''notion.so''
                            \<or> Contains host ''dropbox.com'' \<or> Contains host ''onedrive.com''
                         then True
                         else if Contains (RawQuery parsedURL) ''Expires=''
                            \<or> Contains (RawQuery parsedURL) ''expires=''
                            \<or> Contains (RawQuery parsedURL) ''X-Amz-''
                            \<or> Contains (RawQuery parsedURL) ''sig=''
                            \<or> Contains (RawQuery parsedURL) ''token=''
                         then True
                         else False)))"

text \<open>\<^verbatim>\<open>addGmailSafeImageStyles\<close>, lines 885 to 898.\<close>

definition imageStyle :: string where
  \<open>imageStyle = ''style="max-width:100%;height:auto;display:block;"''\<close>

definition addGmailSafeImageStyles :: "string \<Rightarrow> string" where
  "addGmailSafeImageStyles imgTag =
     (if Contains imgTag ''style='' then ReplaceAllString styleRegex imgTag imageStyle
      else Replace1 imgTag ''>'' ('' '' @ imageStyle @ ''>''))"

text \<open>
  The body of the loop of \<^verbatim>\<open>processImages\<close>, lines 770 to 833, on the document, the
  count of rehosted images, the messages and the service as the earlier images left
  them. A match is the tag followed by the text of its one group, the \<^verbatim>\<open>src\<close>.
\<close>

type_synonym image_state = "string \<times> nat \<times> message list \<times> Service"

definition rehost :: "env \<Rightarrow> Service \<Rightarrow> string \<Rightarrow> (service_error + Asset) \<times> Service" where
  "rehost env s srcURL =
     (if HasPrefix srcURL ''data:'' then ProcessFromDataURI env s srcURL
      else ProcessFromURL env s srcURL)"

definition rewriteTag :: "string \<Rightarrow> Asset \<Rightarrow> string" where
  \<open>rewriteTag fullImgTag asset =
     (let newImgTag = ReplaceAllString srcRegex fullImgTag (''src="'' @ URL asset @ ''"'');
          newImgTag = (if \<not> Contains newImgTag ''alt='' then Replace1 newImgTag ''>'' '' alt="">''
                       else newImgTag)
      in addGmailSafeImageStyles newImgTag)\<close>

definition imageStep :: "env \<Rightarrow> image_state \<Rightarrow> string list \<Rightarrow> image_state" where
  "imageStep env st match =
     (case st of (html, rehosted, messages, s) \<Rightarrow>
        (let fullImgTag = match ! 0;
             srcURL = match ! 1
         in if Contains srcURL ''i.format.hackclub.com'' then st
            else if HasPrefix srcURL ''blob:''
            then (html, rehosted, messages @ [GmailDraftImagesDetected], s)
            else if Contains srcURL ''mail.google.com'' \<and> Contains srcURL ''attid=''
            then (html, rehosted, messages @ [GmailAttachmentImageDetected], s)
            else if \<not> shouldRehostImage env srcURL then st
            else (case rehost env s srcURL of
                    (Inl err, s') \<Rightarrow>
                      (html, rehosted, messages @ [FailedToRehostImage (take 50 srcURL) err], s')
                  | (Inr asset, s') \<Rightarrow>
                      (Replace1 html fullImgTag (rewriteTag fullImgTag asset),
                       rehosted + 1,
                       messages @ [ImageRehostedFromTo (take 50 srcURL) (URL asset),
                                   if Deduped asset then ImageDeduplicated (URL asset)
                                   else ImageRehosted (URL asset)],
                       s'))))"


text \<open>\<^verbatim>\<open>processImages\<close>, lines 758 to 836.\<close>

definition processImages :: "env \<Rightarrow> Service \<Rightarrow> string \<Rightarrow> (string \<times> Stats \<times> message list) \<times> Service" where
  "processImages env s html =
     (let matches = FindAllStringSubmatch imgRegex html
      in case foldl (imageStep env) (html, 0, [], s) matches of
           (html', rehosted, messages, s') \<Rightarrow>
             ((html', \<lparr>ImagesProcessed = length matches, ImagesRehosted = rehosted,
                      StylesRemoved = 0, ScriptsRemoved = 0\<rparr>, messages), s'))"

subsection \<open>sanitizeHTML\<close>

definition gmailParagraphStyle :: string where
  \<open>gmailParagraphStyle = ''style="color: rgb(34, 34, 34); font-family: Arial, Helvetica, sans-serif; font-size: small; font-style: normal; font-variant-ligatures: normal; font-variant-caps: normal; font-weight: 400; letter-spacing: normal; orphans: 2; text-align: start; text-indent: 0px; text-transform: none; widows: 2; word-spacing: 0px; -webkit-text-stroke-width: 0px; white-space: normal; text-decoration-thickness: initial; text-decoration-style: initial; text-decoration-color: initial;"''\<close>

definition gmailHeadingStyle :: string where
  \<open>gmailHeadingStyle = ''style="color: rgb(34, 34, 34); font-family: Arial, Helvetica, sans-serif; font-style: normal; font-variant-ligatures: normal; font-variant-caps: normal; letter-spacing: normal; orphans: 2; text-align: start; text-indent: 0px; text-transform: none; widows: 2; word-spacing: 0px; -webkit-text-stroke-width: 0px; white-space: normal; text-decoration-thickness: initial; text-decoration-style: initial; text-decoration-color: initial;"''\<close>

definition blockquoteTemplate :: string where
  \<open>blockquoteTemplate = ''<blockquote class="gmail_quote" style="color: rgb(34, 34, 34); font-family: Arial, Helvetica, sans-serif; font-size: small; font-style: normal; font-variant-ligatures: normal; font-variant-caps: normal; font-weight: 400; letter-spacing: normal; orphans: 2; text-align: start; text-indent: 0px; text-transform: none; widows: 2; word-spacing: 0px; -webkit-text-stroke-width: 0px; white-space: normal; text-decoration-thickness: initial; text-decoration-style: initial; text-decoration-color: initial; margin: 0px 0px 0px 0.8ex; border-left: 1px solid rgb(204, 204, 204); padding-left: 1ex;">$1</blockquote>''\<close>

text \<open>\<^verbatim>\<open>convertHeadingsToGmail\<close>, lines 1079 to 1112.\<close>

definition convertHeadingsToGmail :: "string \<Rightarrow> string" where
  "convertHeadingsToGmail html =
     ReplaceAllStringFunc headingRegex html (\<lambda>match.
       (let submatches = FindStringSubmatch headingRegex match
        in if length submatches \<noteq> 3 then match
           else (let level = submatches ! 1;
                     content = submatches ! 2;
                     fontSize = (if level = ''h1'' then ''font-size: large;''
                                 else if level = ''h2'' then ''font-size: medium;''
                                 else ''font-size: small;'');
                     fontWeight = ''font-weight: bold;''
                 in ''<div '' @ gmailHeadingStyle @ '' '' @ fontSize @ '' '' @ fontWeight @ ''>''
                    @ content @ ''</div>'')))"

text \<open>\<^verbatim>\<open>convertToGmailFormat\<close>, lines 1010 to 1074.\<close>

definition convertToGmailFormat :: "string \<Rightarrow> string" where
  \<open>convertToGmailFormat html0 =
     (let html = ReplaceAllStringFunc paragraphRegex html0 (\<lambda>match.
            (let matches = FindStringSubmatch paragraphRegex match
             in if length matches < 2 then match
                else (let content = matches ! 1
                      in if content = ''<br>'' \<or> content = ''<br/>'' \<or> content = ''<br />''
                         then ''<div '' @ gmailParagraphStyle @ ''><br></div>''
                         else ''<div '' @ gmailParagraphStyle @ ''>'' @ content @ ''</div>'')));
          html = ReplaceAllStringFunc divRegex html (\<lambda>match.
            if Contains match ''color: rgb(34, 34, 34)'' \<or> Contains match ''<ol>''
               \<or> Contains match ''<ul>'' \<or> Contains match ''<blockquote''
            then match
            else (let matches = FindStringSubmatch divRegex match
                  in if length matches < 2 then match
                     else ''<div '' @ gmailParagraphStyle @ ''>'' @ matches ! 1 @ ''</div>''));
          html = convertHeadingsToGmail html;
          html = ReplaceAllString blockquoteRegex html blockquoteTemplate
      in ReplaceAllStringFunc anchorRegex html (\<lambda>match.
           if \<not> Contains match ''style=''
           then Replace1 match ''>'' '' style="color: rgb(17, 85, 204);">''
           else match))\<close>

text \<open>\<^verbatim>\<open>removeDangerousAttributes\<close>, lines 929 to 952.\<close>

definition removeDangerousAttributes :: "string \<Rightarrow> string" where
  \<open>removeDangerousAttributes html0 =
     (let html = ReplaceAllString eventRegex html0 [];
          html = ReplaceAllString jsLinkRegex html ''href="#"'';
          html = ReplaceAllStringFunc classRegex html (\<lambda>match.
            if Contains match ''class="gmail_quote"'' \<or> Contains match ''class="gmail_''
            then match else [])
      in ReplaceAllString idRegex html [])\<close>

text \<open>\<^verbatim>\<open>cleanURL\<close>, lines 973 to 1005, and \<^verbatim>\<open>normalizeLinks\<close>, lines 955 to 970.\<close>

definition trackingParams :: "string list" where
  "trackingParams = [''utm_source'', ''utm_medium'', ''utm_campaign'', ''utm_term'', ''utm_content'',
                     ''gclid'', ''fbclid'']"

definition cleanURL :: "env \<Rightarrow> string \<Rightarrow> string" where
  "cleanURL env urlStr =
     (if MatchString emailRegex urlStr then ''mailto:'' @ urlStr
      else (case url_Parse env urlStr of
              None \<Rightarrow> urlStr
            | Some parsedURL \<Rightarrow>
                if Scheme parsedURL = ''mailto'' then urlStr
                else (let parsedURL = (if Scheme parsedURL = ''http''
                                       then parsedURL\<lparr>Scheme := ''https''\<rparr> else parsedURL);
                          query = ParseQuery env (RawQuery parsedURL);
                          query = foldl (\<lambda>q param. filter (\<lambda>(k, v). k \<noteq> param) q) query trackingParams
                      in url_String env (parsedURL\<lparr>RawQuery := Values_Encode env query\<rparr>))))"

definition normalizeLinks :: "env \<Rightarrow> string \<Rightarrow> string" where
  \<open>normalizeLinks env html =
     ReplaceAllStringFunc linkRegex html (\<lambda>match.
       (let hrefMatch = FindStringSubmatch hrefRegex match
        in if length hrefMatch \<noteq> 2 then match
           else (let originalURL = hrefMatch ! 1;
                     cleanedURL = cleanURL env originalURL
                 in Replace1 match (''href="'' @ originalURL @ ''"'') (''href="'' @ cleanedURL @ ''"''))))\<close>

text \<open>\<^verbatim>\<open>sanitizeHTML\<close>, lines 901 to 926.\<close>

definition sanitizeHTML :: "env \<Rightarrow> string \<Rightarrow> string \<times> Stats" where
  "sanitizeHTML env html0 =
     (let scripts = FindAllString scriptRegex html0;
          html = ReplaceAllString scriptRegex html0 [];
          styleTags = FindAllString styleTagRegex html;
          html = ReplaceAllString styleTagRegex html [];
          html = convertToGmailFormat html;
          html = removeDangerousAttributes html;
          html = normalizeLinks env html
      in (html, \<lparr>ImagesProcessed = 0, ImagesRehosted = 0,
                 StylesRemoved = length styleTags, ScriptsRemoved = length scripts\<rparr>))"

subsection \<open>Transform\<close>

text \<open>
  \<^verbatim>\<open>Transform\<close>, lines 734 to 755. The Go function returns a response and an
  \<^verbatim>\<open>error\<close>; the left summand is the error.
\<close>

definition Transform :: "env \<Rightarrow> Service \<Rightarrow> TransformRequest \<Rightarrow> (string + TransformResponse) \<times> Service" where
  "Transform env s req =
     (case processImages env s (req_HTML req) of
        ((html, imageStats, imageMessages), s') \<Rightarrow>
          (case sanitizeHTML env html of
             (html', sanitizeStats) \<Rightarrow>
               (Inr \<lparr>HTML = html',
                     Messages = [] @ imageMessages,
                     resp_Stats = \<lparr>ImagesProcessed = ImagesProcessed imageStats,
                                   ImagesRehosted = ImagesRehosted imageStats,
                                   StylesRemoved = StylesRemoved sanitizeStats,
                                   ScriptsRemoved = ScriptsRemoved sanitizeStats\<rparr>\<rparr>, s')))"


section \<open>An example environment\<close>

text \<open>
  A small concrete world for evaluating the definitions: one host, whose name resolves to
  the given addresses and whose server answers every request with the given response;
  an image library that reads every input as an image with the given metadata and
  encodes by putting a format byte in front; a hash that looks at the length only.
\<close>

abbreviation example_url :: parsed_url where
  "example_url \<equiv> \<lparr>Scheme = ''https'', Host = ''img.example'', RawQuery = '''', Rest = ''''\<rparr>"

abbreviation example_response :: "int \<Rightarrow> int \<Rightarrow> byte list \<Rightarrow> response" where
  "example_response st cl b \<equiv>
     \<lparr>StatusCode = st, ContentLength = cl, ContentTypeHeader = ''image/png'', Body = b, BodyFails = False\<rparr>"

abbreviation example_env :: "byte list list \<Rightarrow> response \<Rightarrow> ImageMetadata \<Rightarrow> env" where
  "example_env ips resp meta \<equiv>
     \<lparr>url_Parse = (\<lambda>s. Some example_url),
      url_String = (\<lambda>u. Scheme u @ ''://'' @ Host u),
      ParseQuery = (\<lambda>s. []),
      Values_Encode = (\<lambda>v. ''''),
      QueryUnescape = (\<lambda>s. Some s),
      NewRequest_ok = (\<lambda>s. True),
      canonicalAddr = (\<lambda>s. ''img.example:443''),
      SplitHostPort = (\<lambda>s. Some (''img.example'', ''443'')),
      LookupIP = (\<lambda>h. Some ips),
      dialer_ok = (\<lambda>a. True),
      roundTrip = (\<lambda>s. Some resp),
      redirect_target = (\<lambda>r. None),
      DetectContentType = (\<lambda>b. ''application/octet-stream''),
      bimg_Metadata = (\<lambda>b. Some meta),
      bimg_Process = (\<lambda>opts b. Some ((if Type opts = JPEG then 255 else 137) # b)),
      Sum256 = (\<lambda>b. of_nat (length b)),
      base64_DecodeString = (\<lambda>s. None),
      head_fault = (\<lambda>k. None),
      put_result = (\<lambda>k. Inr ''etag'')\<rparr>"

abbreviation example_net :: "byte list list \<Rightarrow> response \<Rightarrow> env" where
  "example_net ips resp \<equiv> example_env ips resp \<lparr>Size_Width = 10, Size_Height = 10, Alpha = False\<rparr>"

abbreviation example_processor :: Processor where
  "example_processor \<equiv> \<lparr>jpegQuality = 90, jpegProgressive = True, pngStrip = True\<rparr>"

abbreviation example_png :: "byte list" where
  "example_png \<equiv> replicate 200 80"


abbreviation example_world :: env where
  "example_world \<equiv> example_env [[93, 184, 216, 34]] (example_response 200 0 [])
     \<lparr>Size_Width = 10, Size_Height = 10, Alpha = False\<rparr>"

abbreviation example_service :: Service where
  "example_service \<equiv>
     \<lparr>processor = example_processor,
      storage = \<lparr>publicBaseURL = ''https://i.format.hackclub.com'', objects = Map.empty, put_calls = []\<rparr>\<rparr>"

abbreviation example_upload :: ProcessInput where
  "example_upload \<equiv> \<lparr>input_Data = example_png, input_ContentType = ''image/png'', SourceURL = ''upload''\<rparr>"

abbreviation example_item :: BatchInput where
  "example_item \<equiv>
     \<lparr>batch_URL = '''', batch_DataURI = '''', batch_Data = example_png, batch_ContentType = ''image/png''\<rparr>"

abbreviation empty_item :: BatchInput where
  "empty_item \<equiv> \<lparr>batch_URL = '''', batch_DataURI = '''', batch_Data = [], batch_ContentType = ''''\<rparr>"

abbreviation example_http_world :: env where
  "example_http_world \<equiv>
     example_world\<lparr>url_Parse := (\<lambda>s. Some \<lparr>Scheme = ''http'', Host = ''old.example'', RawQuery = '''', Rest = ''/a.png''\<rparr>)\<rparr>"

abbreviation example_document :: string where
  \<open>example_document \<equiv> ''<img src="http://old.example/a.png"><img src="data:image/png,abc">''\<close>


chapter \<open>Properties\<close>

section \<open>The fetcher\<close>

lemma ip_value_bound: "ip_value bs < 256 ^ length bs"
proof (induction bs)
  case Nil show ?case by simp
next
  case (Cons b bs)
  have "unat b < 256" using unsigned_less[of b, where 'a=nat] by simp
  then have "unat b * 256 ^ length bs + ip_value bs < (unat b + 1) * 256 ^ length bs"
    using Cons by simp
  also have "\<dots> \<le> 256 * 256 ^ length bs" using \<open>unat b < 256\<close> by (simp add: Suc_leI)
  finally show ?case by simp
qed



lemma and_c0_enum: "\<forall>n \<in> set [128..<192]. (of_nat n :: byte) AND 0xc0 = 0x80"
  by code_simp

lemma and_fe_enum: "\<forall>n \<in> set [252..<254]. (of_nat n :: byte) AND 0xfe = 0xfc"
  by code_simp

lemma and_c0: 
  assumes "unat (b::byte) div 64 = 2" shows "b AND 0xc0 = 0x80"
proof -
  have "128 \<le> unat b \<and> unat b < 192" using assms by arith
  then have "unat b \<in> set [128..<192]" by (simp only: set_upt atLeastLessThan_iff)
  then have "(of_nat (unat b) :: byte) AND 0xc0 = 0x80" using and_c0_enum by blast
  then show ?thesis by simp
qed

lemma and_fe:
  assumes "unat (b::byte) div 2 = 126" shows "b AND 0xfe = 0xfc"
proof -
  have "252 \<le> unat b \<and> unat b < 254" using assms by arith
  then have "unat b \<in> set [252..<254]" by (simp only: set_upt atLeastLessThan_iff)
  then have "(of_nat (unat b) :: byte) AND 0xfe = 0xfc" using and_fe_enum by blast
  then show ?thesis by simp
qed

lemma byte_eq_numeral: "unat (b::byte) = n \<Longrightarrow> b = of_nat n"
  by auto



lemma pow8: "(2::nat) ^ (8 * n) = 256 ^ n"
  by (simp add: power_mult)

lemma div_step: "r < m \<Longrightarrow> (q * m + r) div m = (q::nat)"
  by simp

lemma ip_value_div1: "ip_value (a # bs) div 256 ^ length bs = unat a"
  unfolding ip_value.simps by (rule div_step) (rule ip_value_bound)

lemma ip_value_div2: "ip_value (a # b # bs) div 256 ^ length bs = unat a * 256 + unat b"
proof -
  have "ip_value (a # b # bs) = (unat a * 256 + unat b) * 256 ^ length bs + ip_value bs"
    by (simp add: algebra_simps)
  then show ?thesis by (simp only: div_step[OF ip_value_bound])
qed

lemma prefix_bits_of_first:
  assumes "length bs = length cs" "k \<le> 8"
  shows "in_prefix (a # bs) (p # cs) k \<longleftrightarrow> unat a div 2 ^ (8 - k) = unat p div 2 ^ (8 - k)"
proof -
  have "8 * length (a # bs) - k = 8 * length bs + (8 - k)" using assms(2) by simp
  then have e: "(2::nat) ^ (8 * length (a # bs) - k) = 256 ^ length bs * 2 ^ (8 - k)"
    by (simp only: power_add pow8)
  have "8 * length (p # cs) - k = 8 * length cs + (8 - k)" using assms(2) by simp
  then have e': "(2::nat) ^ (8 * length (p # cs) - k) = 256 ^ length cs * 2 ^ (8 - k)"
    by (simp only: power_add pow8)
  have l: "length (a # bs) = length (p # cs)" using assms(1) by simp
  show ?thesis
    unfolding in_prefix_def e e' div_mult2_eq ip_value_div1 using l by blast
qed

lemma prefix_bits_of_second:
  assumes "length bs = length cs" "k \<le> 8"
  shows "in_prefix (a # b # bs) (p # q # cs) (8 + k) \<longleftrightarrow>
         (unat a * 256 + unat b) div 2 ^ (8 - k) = (unat p * 256 + unat q) div 2 ^ (8 - k)"
proof -
  have "8 * length (a # b # bs) - (8 + k) = 8 * length bs + (8 - k)" using assms(2) by simp
  then have e: "(2::nat) ^ (8 * length (a # b # bs) - (8 + k)) = 256 ^ length bs * 2 ^ (8 - k)"
    by (simp only: power_add pow8)
  have "8 * length (p # q # cs) - (8 + k) = 8 * length cs + (8 - k)" using assms(2) by simp
  then have e': "(2::nat) ^ (8 * length (p # q # cs) - (8 + k)) = 256 ^ length cs * 2 ^ (8 - k)"
    by (simp only: power_add pow8)
  have l: "length (a # b # bs) = length (p # q # cs)" using assms(1) by simp
  show ?thesis
    unfolding in_prefix_def e e' div_mult2_eq ip_value_div2 using l by blast
qed

lemma byte_bound: "unat (b::byte) < 256"
  using unsigned_less[of b, where 'a=nat] by simp

lemma nat16:
  fixes a b p q :: nat
  assumes "b < 256" "q < 256" "a * 256 + b = p * 256 + q"
  shows "a = p \<and> b = q"
proof -
  have "(a * 256 + b) div 256 = (p * 256 + q) div 256" using assms(3) by simp
  then have "a = p" by (simp only: div_step[OF assms(1)] div_step[OF assms(2)])
  then show ?thesis using assms(3) by simp
qed

lemma small_split:
  fixes a c :: nat
  assumes "c < m" "a * m + c = n"
  shows "a = n div m \<and> c = n mod m"
  using assms by auto

lemma nat12:
  fixes a b :: nat
  assumes "b < 256" "(a * 256 + b) div 16 = 2753"
  shows "a = 172 \<and> 16 \<le> b \<and> b \<le> 31"
proof -
  have "a * 256 + b = (a * 16) * 16 + b" by simp
  then have "(a * 256 + b) div 16 = a * 16 + b div 16" by (simp only: div_mult_self3)
  then have e: "a * 16 + b div 16 = 2753" using assms(2) by simp
  have "b div 16 < 16" using assms(1) by simp
  then have "a = 2753 div 16 \<and> b div 16 = 2753 mod 16" using e by (rule small_split)
  then have "a = 172 \<and> b div 16 = 1" by simp
  then show ?thesis by auto
qed

lemma nat10:
  fixes a b :: nat
  assumes "b < 256" "(a * 256 + b) div 64 = 1018"
  shows "a = 254 \<and> b div 64 = 2"
proof -
  have "a * 256 + b = (a * 4) * 64 + b" by simp
  then have "(a * 256 + b) div 64 = a * 4 + b div 64" by (simp only: div_mult_self3)
  then have e: "a * 4 + b div 64 = 1018" using assms(2) by simp
  have "b div 64 < 4" using assms(1) by simp
  then have "a = 1018 div 4 \<and> b div 64 = 1018 mod 4" using e by (rule small_split)
  then show ?thesis by simp
qed

lemma private_v4_isPrivateIP:
  assumes "To4 ip = Some ip4" and "length ip4 = 4" and "private_v4 ip4"
  shows "isPrivateIP ip"
proof -
  obtain a b c d where ip4: "ip4 = [a, b, c, d]"
    using assms(2) by (auto simp: length_Suc_conv numeral_eq_Suc)
  have to4: "To4 ip = Some [a, b, c, d]" using assms(1) ip4 by simp
  have p8: "in_prefix [a, b, c, d] [p, q, r, s] 8 \<longleftrightarrow> unat a = unat p" for p q r s
    using prefix_bits_of_first[of "[b, c, d]" "[q, r, s]" 8 a p] by simp
  have p12: "in_prefix [a, b, c, d] [p, q, r, s] 12 \<longleftrightarrow>
      (unat a * 256 + unat b) div 16 = (unat p * 256 + unat q) div 16" for p q r s
    using prefix_bits_of_second[of "[c, d]" "[r, s]" 4 a b p q] by simp
  have p16: "in_prefix [a, b, c, d] [p, q, r, s] 16 \<longleftrightarrow>
      unat a * 256 + unat b = unat p * 256 + unat q" for p q r s
    using prefix_bits_of_second[of "[c, d]" "[r, s]" 8 a b p q] by simp
  from assms(3) show ?thesis unfolding ip4 private_v4_def
  proof (elim disjE)
    assume "in_prefix [a, b, c, d] [10, 0, 0, 0] 8"
    then have "unat a = 10" by (simp add: p8)
    then have "a = 10" by (simp add: word_unat_eq_iff)
    then show "isPrivateIP ip" using to4 by (simp add: isPrivateIP_def)
  next
    assume "in_prefix [a, b, c, d] [172, 16, 0, 0] 12"
    then have "(unat a * 256 + unat b) div 16 = 2753" by (simp add: p12)
    then have "unat a = 172 \<and> 16 \<le> unat b \<and> unat b \<le> 31"
      by (rule nat12[OF byte_bound])
    then have "a = 172" "16 \<le> b" "b \<le> 31" by (simp_all add: word_unat_eq_iff word_le_nat_alt)
    then show "isPrivateIP ip" using to4 by (simp add: isPrivateIP_def)
  next
    assume "in_prefix [a, b, c, d] [192, 168, 0, 0] 16"
    then have "unat a * 256 + unat b = 192 * 256 + 168" by (simp add: p16)
    then have "unat a = 192 \<and> unat b = 168" by (intro nat16[OF byte_bound]) simp_all
    then have "a = 192" "b = 168" by (simp_all add: word_unat_eq_iff)
    then show "isPrivateIP ip" using to4 by (simp add: isPrivateIP_def)
  next
    assume "in_prefix [a, b, c, d] [169, 254, 0, 0] 16"
    then have "unat a * 256 + unat b = 169 * 256 + 254" by (simp add: p16)
    then have "unat a = 169 \<and> unat b = 254" by (intro nat16[OF byte_bound]) simp_all
    then have "a = 169" "b = 254" by (simp_all add: word_unat_eq_iff)
    then show "isPrivateIP ip" using to4 by (simp add: isPrivateIP_def)
  next
    assume "in_prefix [a, b, c, d] [127, 0, 0, 0] 8"
    then have "unat a = 127" by (simp add: p8)
    then have "a = 127" by (simp add: word_unat_eq_iff)
    then show "isPrivateIP ip" using to4 by (simp add: isPrivateIP_def IsLoopback_def)
  qed
qed

lemma To4_mapped:
  assumes "length ip = 16" and "take 12 ip = v4InV6Prefix"
  shows "To4 ip = Some (drop 12 ip)"
proof -
  have "take 10 (take 12 ip) = take 10 v4InV6Prefix" using assms(2) by simp
  then have t: "take 10 ip = replicate 10 0" by (simp add: v4InV6Prefix_def)
  have "take 12 ip ! 10 = v4InV6Prefix ! 10" "take 12 ip ! 11 = v4InV6Prefix ! 11"
    using assms(2) by simp_all
  then have "ip ! 10 = 0xff" "ip ! 11 = 0xff"
    by (simp_all add: v4InV6Prefix_def nth_append)
  then show ?thesis using assms(1) t by (simp add: To4_def)
qed

lemma ip_value_zeros: "ip_value (replicate n 0) = 0"
  by (induction n) simp_all

lemma forbidden6:
  assumes "length ip = 16" and "in_prefix ip (0xfc # replicate 15 0) 7 \<or> in_prefix ip (0xfe # 0x80 # replicate 14 0) 10
         \<or> ip = replicate 15 0 @ [1]"
  shows "isPrivateIP ip"
proof -
  obtain a ip' where ip': "ip = a # ip'" using assms(1) by (cases ip) auto
  then have "length ip' = 15" using assms(1) by simp
  then obtain b bs where ip'': "ip' = b # bs" by (cases ip') auto
  have ip: "ip = a # b # bs" and l: "length bs = 14"
    using ip' ip'' assms(1) by simp_all
  have n4: "length ip \<noteq> 4" using assms(1) by simp
  show ?thesis
  proof (cases "To4 ip")
    case (Some ip4)
    then have "take 10 ip = replicate 10 0" by (auto simp: To4_def n4 split: if_splits)
    then have "take 2 (take 10 ip) = take 2 (replicate 10 0)" by simp
    then have z: "a = 0" "b = 0" by (simp_all add: ip take_Suc_Cons numeral_2_eq_2)
    have p7: "in_prefix (a # b # bs) (p # cs) 7 \<longleftrightarrow> unat a div 2 = unat p div 2" if "length cs = 15" for p cs
      using prefix_bits_of_first[of "b # bs" cs 7 a p] l that by simp
    have p10: "in_prefix (a # b # bs) (p # q # cs) 10 \<longleftrightarrow>
      (unat a * 256 + unat b) div 64 = (unat p * 256 + unat q) div 64" if "length cs = 14" for p q cs
      using prefix_bits_of_second[of bs cs 2 a b p q] l that by simp
    have "unat a div 2 = 126 \<or> (unat a * 256 + unat b) div 64 = 1018 \<or> ip = replicate 15 0 @ [1]"
      using assms(2) unfolding ip by (simp add: p7 p10)
    then have "ip = replicate 15 0 @ [1]"
      by (simp add: z)
    then have "ip ! 10 = 0" "length ip = 16" by (simp_all add: nth_append)
    then have "To4 ip = None" by (simp add: To4_def)
    with Some show ?thesis by simp
  next
    case None
    then have n: "To4 (a # b # bs) = None" by (simp add: ip)
    have p7: "in_prefix (a # b # bs) (p # cs) 7 \<longleftrightarrow> unat a div 2 = unat p div 2" if "length cs = 15" for p cs
      using prefix_bits_of_first[of "b # bs" cs 7 a p] l that by simp
    have p10: "in_prefix (a # b # bs) (p # q # cs) 10 \<longleftrightarrow>
      (unat a * 256 + unat b) div 64 = (unat p * 256 + unat q) div 64" if "length cs = 14" for p q cs
      using prefix_bits_of_second[of bs cs 2 a b p q] l that by simp
    have "unat a div 2 = 126 \<or> (unat a * 256 + unat b) div 64 = 1018 \<or> ip = replicate 15 0 @ [1]"
      using assms(2) unfolding ip by (simp add: p7 p10)
    then consider (ula) "unat a div 2 = 126"
      | (ll) "unat a = 254 \<and> unat b div 64 = 2" | (lo) "ip = replicate 15 0 @ [1]"
      using nat10[OF byte_bound[of b], of "unat a"] by blast
    then show ?thesis
    proof cases
      case ula
      then have "ip ! 0 AND 0xfe = 0xfc" by (simp add: ip and_fe)
      then show ?thesis using None assms(1) by (simp add: isPrivateIP_def)
    next
      case ll
      then have "ip ! 0 = 0xfe" "ip ! 1 AND 0xc0 = 0x80" by (simp_all add: ip word_unat_eq_iff and_c0)
      then show ?thesis using None assms(1) by (simp add: isPrivateIP_def)
    next
      case lo
      then have "ip = IPv6loopback" by (simp add: IPv6loopback_def)
      then have "IsLoopback ip" using None by (simp add: IsLoopback_def)
      then show ?thesis by (simp add: isPrivateIP_def)
    qed
  qed
qed

lemma forbidden_destination_isPrivateIP:
  assumes "forbidden_destination ip"
  shows "isPrivateIP ip"
proof -
  consider (v4) "length ip = 4" "private_v4 ip"
    | (mapped) "length ip = 16" "take 12 ip = v4InV6Prefix" "private_v4 (drop 12 ip)"
    | (v6) "length ip = 16" "in_prefix ip (0xfc # replicate 15 0) 7 \<or> in_prefix ip (0xfe # 0x80 # replicate 14 0) 10
         \<or> ip = replicate 15 0 @ [1]"
    using assms unfolding forbidden_destination_def by blast
  then show ?thesis
  proof cases
    case v4
    then have "To4 ip = Some ip" by (simp add: To4_def)
    then show ?thesis using v4 by (rule private_v4_isPrivateIP)
  next
    case mapped
    have "To4 ip = Some (drop 12 ip)" using mapped(1,2) by (rule To4_mapped)
    moreover have "length (drop 12 ip) = 4" using mapped(1) by simp
    ultimately show ?thesis using mapped(3) by (rule private_v4_isPrivateIP)
  next
    case v6
    then show ?thesis by (rule forbidden6)
  qed
qed

lemma example_mapped_loopback:
  "forbidden_destination (replicate 10 0 @ [0xff, 0xff, 127, 0, 0, 1])"
  by (simp add: forbidden_destination_def v4InV6Prefix_def private_v4_def in_prefix_def)

lemma find_private:
  assumes "ip \<in> set ips" "isPrivateIP ip"
  shows "\<exists>ip'. find isPrivateIP ips = Some ip' \<and> ip' \<in> set ips \<and> isPrivateIP ip'"
proof (cases "find isPrivateIP ips")
  case None
  then show ?thesis using assms by (auto simp: find_None_iff)
next
  case (Some a)
  then show ?thesis by (auto simp: find_Some_iff)
qed

lemma DialContext_trace: "set (snd (DialContext env addr)) \<subseteq> {Dial addr}"
  by (auto simp: DialContext_def split: option.splits prod.splits)

lemma client_Do_trace: "ReadBody k \<notin> set (snd (client_Do env n url))"
proof (induction n arbitrary: url)
  case 0
  show ?case by simp
next
  case (Suc n)
  have d: "ReadBody k \<notin> set (snd (DialContext env a))" for a
    using DialContext_trace[of env a] by auto
  show ?case
    using Suc[of "the (redirect_target env (the (roundTrip env url)))"] d[of "canonicalAddr env url"]
    by (auto split: prod.splits sum.splits option.splits)
qed

lemma client_Do_10: "client_Do env 10 u = client_Do env (Suc 9) u"
  by simp

lemma example_public_ip: "\<not> isPrivateIP [93, 184, 216, 34]"
  by (simp add: isPrivateIP_def IsLoopback_def IsLinkLocalUnicast_def IsLinkLocalMulticast_def To4_def)

lemma example_client_Do:
  "client_Do (example_net [[93, 184, 216, 34]] resp) 10 u = (Inr resp, [Dial ''img.example:443''])"
  unfolding client_Do_10 client_Do.simps by (simp add: DialContext_def example_public_ip)

text \<open>
  C5. When the host of an HTTPS URL resolves to a list of addresses one of which lies in
  a forbidden range (IPv4 10/8, 172.16/12, 192.168/16, 169.254/16, 127/8, in four or
  in sixteen bytes; IPv6 fc00::/7, fe80::/10, ::1), \<^verbatim>\<open>FetchURL\<close> fails with the
  private-address error of the dial hook, and its trace is empty: no connection was
  opened and no byte of a response was read.
\<close>

theorem FetchURL_private_destination:
  assumes "url_Parse env u = Some p" and "Scheme p = ''https''" and "NewRequest_ok env u"
    and "SplitHostPort env (canonicalAddr env u) = Some (host, port)"
    and "LookupIP env host = Some ips"
    and "ip \<in> set ips" and "forbidden_destination ip"
  shows "\<exists>ip'. ip' \<in> set ips \<and> isPrivateIP ip' \<and>
           FetchURL env u = (Inl (FetchFailed (DialError (PrivateIPNotAllowed ip'))), [])"
proof -
  have "isPrivateIP ip" using assms(7) by (rule forbidden_destination_isPrivateIP)
  then obtain ip' where f: "find isPrivateIP ips = Some ip'" "ip' \<in> set ips" "isPrivateIP ip'"
    using find_private[OF assms(6)] by blast
  have "DialContext env (canonicalAddr env u) = (Inl (PrivateIPNotAllowed ip'), [])"
    by (simp add: DialContext_def assms(4,5) f(1))
  then have "client_Do env 10 u = (Inl (DialError (PrivateIPNotAllowed ip')), [])"
    unfolding client_Do_10 client_Do.simps by simp
  then have "FetchURL env u = (Inl (FetchFailed (DialError (PrivateIPNotAllowed ip'))), [])"
    by (simp add: FetchURL_def assms(1,2,3))
  then show ?thesis using f by blast
qed

theorem FetchURL_private_destination_witness:
  "\<exists>ip'. ip' \<in> set [[93, 184, 216, 34], [10, 0, 0, 5]] \<and> isPrivateIP ip' \<and>
     FetchURL (example_net [[93, 184, 216, 34], [10, 0, 0, 5]] (example_response 200 3 [1, 2, 3]))
       ''https://img.example/a.png''
       = (Inl (FetchFailed (DialError (PrivateIPNotAllowed ip'))), [])"
proof -
  have "forbidden_destination [10, 0, 0, 5]"
    by (simp add: forbidden_destination_def private_v4_def in_prefix_def)
  then show ?thesis
    using FetchURL_private_destination[of
        "example_net [[93, 184, 216, 34], [10, 0, 0, 5]] (example_response 200 3 [1, 2, 3])"
        "''https://img.example/a.png''" example_url "''img.example''" "''443''"
        "[[93, 184, 216, 34], [10, 0, 0, 5]]" "[10, 0, 0, 5]"]
    by simp
qed

text \<open>
  C10. When the response that \<^verbatim>\<open>client.Do\<close> hands back has a status other than 200,
  \<^verbatim>\<open>FetchURL\<close> returns the status error, hence no bytes, and no byte of the body was
  read.
\<close>

theorem FetchURL_status_not_200:
  assumes "url_Parse env u = Some p" and "Scheme p = ''https''" and "NewRequest_ok env u"
    and "client_Do env 10 u = (Inr resp, tr)"
    and "StatusCode resp \<noteq> 200"
  shows "FetchURL env u = (Inl (HTTPStatusError (StatusCode resp)), tr) \<and> (\<forall>k. ReadBody k \<notin> set tr)"
proof -
  have "readResponse env resp = (Inl (HTTPStatusError (StatusCode resp)), [])"
    using assms(5) by (simp add: readResponse_def)
  then have "FetchURL env u = (Inl (HTTPStatusError (StatusCode resp)), tr)"
    by (simp add: FetchURL_def assms(1,2,3,4))
  moreover have "ReadBody k \<notin> set tr" for k
    using client_Do_trace[of k env 10 u] assms(4) by simp
  ultimately show ?thesis by blast
qed

theorem FetchURL_status_not_200_witness:
  "FetchURL (example_net [[93, 184, 216, 34]] (example_response 206 3 [1, 2, 3])) ''https://img.example/a.png''
     = (Inl (HTTPStatusError 206), [Dial ''img.example:443''])"
  using FetchURL_status_not_200[OF _ _ _ example_client_Do, of _ "''https://img.example/a.png''" example_url]
  by simp

text \<open>
  C2, at the inputs where the code departs from it. A response with status 200 whose
  declared length does not exceed the cap (in particular none, \<open>-1\<close>) and whose body is
  longer than the cap is not rejected: \<^verbatim>\<open>FetchURL\<close> succeeds and returns the first
  \<^verbatim>\<open>MaxFileSize\<close> bytes of the body.
\<close>

theorem FetchURL_truncates_long_body:
  assumes "url_Parse env u = Some p" and "Scheme p = ''https''" and "NewRequest_ok env u"
    and "client_Do env 10 u = (Inr resp, tr)"
    and "StatusCode resp = 200"
    and "ContentLength resp \<le> int MaxFileSize"
    and "length (Body resp) > MaxFileSize"
  shows "\<exists>contentType. FetchURL env u =
           (Inr (take MaxFileSize (Body resp), contentType), tr @ [ReadBody MaxFileSize])"
proof -
  have "ReadAllLimited (Body resp) (BodyFails resp) MaxFileSize
          = (Inr (take MaxFileSize (Body resp)), [ReadBody MaxFileSize])"
    using assms(7) by (simp add: ReadAllLimited_def)
  then have "\<exists>ct. readResponse env resp = (Inr (take MaxFileSize (Body resp), ct), [ReadBody MaxFileSize])"
    using assms(5,6) by (simp add: readResponse_def Let_def)
  then show ?thesis
    by (auto simp: FetchURL_def assms(1,2,3,4))
qed

theorem FetchURL_truncates_long_body_witness:
  "\<exists>contentType.
     FetchURL (example_net [[93, 184, 216, 34]] (example_response 200 (- 1) (replicate (MaxFileSize + 1) 7)))
       ''https://img.example/a.png''
     = (Inr (replicate MaxFileSize 7, contentType), [Dial ''img.example:443''] @ [ReadBody MaxFileSize])"
proof -
  let ?resp = "example_response 200 (- 1) (replicate (MaxFileSize + 1) 7)"
  have "min MaxFileSize (MaxFileSize + 1) = MaxFileSize" by simp
  then have t: "take MaxFileSize (Body ?resp) = replicate MaxFileSize 7"
    by (simp only: response.select_convs take_replicate)
  have "\<exists>contentType. FetchURL (example_net [[93, 184, 216, 34]] ?resp) ''https://img.example/a.png'' =
           (Inr (take MaxFileSize (Body ?resp), contentType), [Dial ''img.example:443''] @ [ReadBody MaxFileSize])"
    by (rule FetchURL_truncates_long_body[OF _ _ _ example_client_Do, of _ _ example_url]) simp_all
  then show ?thesis unfolding t .
qed

subsection \<open>Every connection and every read\<close>

text \<open>
  Two properties of all fetches, redirects included. A connection is opened only to an
  address whose host was resolved and none of whose addresses is private, so none lies in
  a forbidden range. No read takes more than \<^verbatim>\<open>MaxFileSize\<close> bytes, and a body that
  \<^verbatim>\<open>FetchURL\<close> returns is no longer than that. The declared length is checked with an
  error of its own.
\<close>

lemma DialContext_dials_checked:
  assumes "Dial a \<in> set (snd (DialContext env addr))"
  shows "a = addr \<and> (\<exists>host port ips. SplitHostPort env addr = Some (host, port)
           \<and> LookupIP env host = Some ips \<and> (\<forall>ip \<in> set ips. \<not> isPrivateIP ip))"
  using assms
  by (auto simp: DialContext_def find_None_iff split: option.splits prod.splits if_splits)

lemma client_Do_dials_checked:
  assumes "Dial a \<in> set (snd (client_Do env n url))"
  shows "\<exists>host port ips. SplitHostPort env a = Some (host, port)
           \<and> LookupIP env host = Some ips \<and> (\<forall>ip \<in> set ips. \<not> isPrivateIP ip)"
  using assms
proof (induction n arbitrary: url)
  case 0
  then show ?case by simp
next
  case (Suc n)
  show ?case
  proof (cases "Dial a \<in> set (snd (DialContext env (canonicalAddr env url)))")
    case True
    then show ?thesis using DialContext_dials_checked by blast
  next
    case False
    then obtain url' where "Dial a \<in> set (snd (client_Do env n url'))"
      using Suc.prems by (auto split: prod.splits sum.splits option.splits) (metis snd_conv)
    then show ?thesis by (rule Suc.IH)
  qed
qed

lemma readResponse_trace:
  assumes "e \<in> set (snd (readResponse env resp))"
  shows "\<exists>k. e = ReadBody k \<and> k \<le> MaxFileSize"
  using assms
  by (auto simp: readResponse_def ReadAllLimited_def Let_def split: if_splits)

lemma FetchURL_trace:
  assumes "e \<in> set (snd (FetchURL env u))"
  shows "e \<in> set (snd (client_Do env 10 u)) \<or> (\<exists>k. e = ReadBody k \<and> k \<le> MaxFileSize)"
proof -
  have "e \<in> set (snd (client_Do env 10 u)) \<or> (\<exists>resp. e \<in> set (snd (readResponse env resp)))"
    using assms
    by (auto simp: FetchURL_def split: option.splits if_splits prod.splits sum.splits)
      (metis snd_conv)
  then show ?thesis using readResponse_trace by blast
qed

lemma FetchURL_dials_checked:
  assumes "Dial a \<in> set (snd (FetchURL env u))"
    and "SplitHostPort env a = Some (host, port)" and "LookupIP env host = Some ips"
    and "ip \<in> set ips"
  shows "\<not> forbidden_destination ip"
proof -
  have "Dial a \<in> set (snd (client_Do env 10 u))"
    using FetchURL_trace[OF assms(1)] by auto
  then have "\<not> isPrivateIP ip"
    using client_Do_dials_checked[of a env 10 u] assms(2,3,4) by auto
  then show ?thesis using forbidden_destination_isPrivateIP by blast
qed

lemma FetchURL_reads_at_most_cap:
  assumes "ReadBody k \<in> set (snd (FetchURL env u))"
  shows "k \<le> MaxFileSize"
  using FetchURL_trace[OF assms] client_Do_trace[of k env 10 u] by auto

lemma FetchURL_body_at_most_cap:
  assumes "FetchURL env u = (Inr (body, contentType), tr)"
  shows "length body \<le> MaxFileSize"
  using assms
  by (auto simp: FetchURL_def readResponse_def ReadAllLimited_def Let_def
      split: option.splits if_splits prod.splits sum.splits)

lemma FetchURL_declared_too_large:
  assumes "url_Parse env u = Some p" and "Scheme p = ''https''" and "NewRequest_ok env u"
    and "client_Do env 10 u = (Inr resp, tr)"
    and "StatusCode resp = 200"
    and "ContentLength resp > int MaxFileSize"
  shows "FetchURL env u = (Inl (FileTooLarge (ContentLength resp)), tr)"
  using assms by (simp add: FetchURL_def readResponse_def)

section \<open>The processor\<close>

lemma finalResult_Data [simp]: "Data (finalResult env m n d c) = d"
  by (simp add: finalResult_def split: option.splits)

lemma finalResult_ContentType [simp]: "ContentType (finalResult env m n d c) = c"
  by (simp add: finalResult_def split: option.splits)


lemma example_Process_opaque:
  "Process (example_env ips resp \<lparr>Size_Width = 10, Size_Height = 10, Alpha = False\<rparr>)
     example_processor example_png ''image/png''
   = Inr \<lparr>Data = 255 # example_png, ContentType = ''image/jpeg'', Width = 10, Height = 10,
          HasAlpha = False, OriginalSize = 200, CompressedSize = 201\<rparr>"
  by (simp add: Process_def validContentType_def IsImageMIME_def hasRealTransparency_def
      ShouldConvertToJPEG_def processingOptions_def maxFileSize_def finalResult_def)








section \<open>The target dimensions\<close>

subsection \<open>Rounding to a double is monotone\<close>

lemma powi_nat: "k \<ge> 0 \<Longrightarrow> (2::rat) powi k = 2 ^ nat k"
  by (simp add: power_int_def)

lemma powi_div: "(2::rat) powi a / 2 powi b = 2 powi (a - b)"
  by (simp add: power_int_diff)

lemma bitlen_rat_bounds:
  assumes "0 < p"
  shows "(2::rat) powi (bitlen p - 1) \<le> of_int p" and "of_int p < (2::rat) powi (bitlen p)"
proof -
  have b: "bitlen p \<ge> 1" using assms by (auto simp: bitlen_alt_def)
  have "2 ^ nat (bitlen p - 1) \<le> p" "p < 2 ^ nat (bitlen p)"
    using bitlen_bounds[OF assms] by auto
  then have "(of_int (2 ^ nat (bitlen p - 1)) :: rat) \<le> of_int p" "(of_int p :: rat) < of_int (2 ^ nat (bitlen p))"
    by (simp_all only: of_int_le_iff of_int_less_iff)
  then show "(2::rat) powi (bitlen p - 1) \<le> of_int p" "of_int p < (2::rat) powi (bitlen p)"
    using b by (simp_all add: powi_nat)
qed

lemma ilog2_bounds:
  assumes "0 < x"
  shows "2 powi (ilog2 x) \<le> x" and "x < 2 powi (ilog2 x + 1)"
proof -
  obtain p q where pq: "quotient_of x = (p, q)" by (cases "quotient_of x")
  then have q: "0 < q" and x: "x = of_int p / of_int q"
    using quotient_of_denom_pos[OF pq] quotient_of_div[OF pq] by simp_all
  have p: "0 < p" using assms q x by (simp add: zero_less_divide_iff)
  define k where "k = bitlen p - bitlen q"
  have qr: "(0::rat) < of_int q" using q by simp
  have pr: "(0::rat) < of_int p" using p by simp
  have "of_int p / of_int q < 2 powi (bitlen p) / (of_int q :: rat)"
    using bitlen_rat_bounds(2)[OF p] qr by (simp add: divide_strict_right_mono)
  also have "\<dots> \<le> 2 powi (bitlen p) / 2 powi (bitlen q - 1)"
    using bitlen_rat_bounds(1)[OF q] qr by (intro divide_left_mono) (simp_all add: zero_less_mult_iff)
  also have "\<dots> = 2 powi (k + 1)"
    unfolding powi_div k_def by (rule arg_cong[where f="\<lambda>e. 2 powi e"]) simp
  finally have up: "x < 2 powi (k + 1)" unfolding x .
  have "(2::rat) powi (k - 1) = 2 powi (bitlen p - 1) / 2 powi (bitlen q)"
    unfolding powi_div k_def by (rule arg_cong[where f="\<lambda>e. 2 powi e"]) simp
  also have "\<dots> \<le> of_int p / 2 powi (bitlen q)"
    using bitlen_rat_bounds(1)[OF p] by (simp add: divide_right_mono)
  also have "\<dots> < of_int p / of_int q"
    using bitlen_rat_bounds(2)[OF q] pr qr by (intro divide_strict_left_mono) simp_all
  finally have lo: "2 powi (k - 1) < x" unfolding x .
  have il: "ilog2 x = (if 2 powi k \<le> x then k else k - 1)"
    by (simp add: ilog2_def pq k_def Let_def)
  show "2 powi (ilog2 x) \<le> x" using lo by (simp add: il)
  show "x < 2 powi (ilog2 x + 1)" using up by (simp add: il)
qed


lemma ilog2_mono:
  assumes "0 < x" "x \<le> y"
  shows "ilog2 x \<le> ilog2 y"
proof (rule ccontr)
  assume "\<not> ilog2 x \<le> ilog2 y"
  then have "ilog2 y + 1 \<le> ilog2 x" by simp
  then have "(2::rat) powi (ilog2 y + 1) \<le> 2 powi (ilog2 x)"
    by (intro power_int_increasing) simp_all
  also have "\<dots> \<le> x" using ilog2_bounds(1)[OF assms(1)] .
  also have "\<dots> \<le> y" using assms(2) .
  also have "\<dots> < 2 powi (ilog2 y + 1)" using ilog2_bounds(2)[of y] assms by simp
  finally show False by simp
qed

lemma round_half_even_floor:
  "\<lfloor>x\<rfloor> \<le> round_half_even x" "round_half_even x \<le> \<lfloor>x\<rfloor> + 1"
  by (simp_all add: round_half_even_def Let_def)

lemma round_half_even_of_int [simp]: "round_half_even (of_int n) = n"
  by (simp add: round_half_even_def)

lemma round_half_even_mono:
  assumes "x \<le> y"
  shows "round_half_even x \<le> round_half_even y"
proof (cases "\<lfloor>x\<rfloor> = \<lfloor>y\<rfloor>")
  case True
  then have "x - of_int \<lfloor>x\<rfloor> \<le> y - of_int \<lfloor>y\<rfloor>" using assms by simp
  then show ?thesis using True by (auto simp: round_half_even_def Let_def)
next
  case False
  then have "\<lfloor>x\<rfloor> < \<lfloor>y\<rfloor>" using floor_mono[OF assms] by simp
  then have "round_half_even x \<le> \<lfloor>y\<rfloor>" using round_half_even_floor(2)[of x] by simp
  then show ?thesis using round_half_even_floor(1)[of y] by simp
qed

lemma round_f64_range:
  assumes "0 < x"
  shows "2 powi (ilog2 x) \<le> round_f64 x" and "round_f64 x \<le> 2 powi (ilog2 x + 1)"
proof -
  define u :: rat where "u = 2 powi (ilog2 x - 52)"
  have u: "0 < u" by (simp add: u_def)
  have r: "round_f64 x = of_int (round_half_even (x / u)) * u"
    using assms by (simp add: round_f64_def u_def Let_def)
  have lo: "(2::rat) powi (ilog2 x) = of_int (2 ^ 52) * u"
    unfolding u_def by (simp add: power_int_diff)
  have hi: "(2::rat) powi (ilog2 x + 1) = of_int (2 ^ 53) * u"
    unfolding u_def by (simp add: power_int_diff power_int_add)
  have "of_int (2 ^ 52) \<le> x / u"
    using ilog2_bounds(1)[OF assms] u unfolding lo by (simp add: pos_le_divide_eq)
  then have "2 ^ 52 \<le> round_half_even (x / u)"
    using round_half_even_mono[of "of_int (2 ^ 52)" "x / u"] by (simp del: of_int_power of_int_numeral)
  then have "(of_int (2 ^ 52) :: rat) \<le> of_int (round_half_even (x / u))"
    by (simp only: of_int_le_iff)
  then show "2 powi (ilog2 x) \<le> round_f64 x"
    unfolding r lo using u by (intro mult_right_mono) simp_all
  have "x / u \<le> of_int (2 ^ 53)"
    using ilog2_bounds(2)[OF assms] u unfolding hi by (simp add: pos_divide_le_eq)
  then have "round_half_even (x / u) \<le> 2 ^ 53"
    using round_half_even_mono[of "x / u" "of_int (2 ^ 53)"] by (simp del: of_int_power of_int_numeral)
  then have "(of_int (round_half_even (x / u)) :: rat) \<le> of_int (2 ^ 53)"
    by (simp only: of_int_le_iff)
  then show "round_f64 x \<le> 2 powi (ilog2 x + 1)"
    unfolding r hi using u by (intro mult_right_mono) simp_all
qed

lemma round_f64_pos: "0 < x \<Longrightarrow> 0 < round_f64 x"
  using round_f64_range(1)[of x] zero_less_power_int[of "2::rat" "ilog2 x"]
  by (simp del: zero_less_power_int)

lemma round_f64_mono:
  assumes "0 < x" "x \<le> y"
  shows "round_f64 x \<le> round_f64 y"
proof (cases "ilog2 x = ilog2 y")
  case True
  define u :: rat where "u = 2 powi (ilog2 x - 52)"
  have u: "0 < u" by (simp add: u_def)
  have rx: "round_f64 x = of_int (round_half_even (x / u)) * u"
    using assms by (simp add: round_f64_def u_def Let_def)
  have ry: "round_f64 y = of_int (round_half_even (y / u)) * u"
    using assms True by (simp add: round_f64_def u_def Let_def)
  have "x / u \<le> y / u" using assms(2) u by (simp add: divide_right_mono)
  then have "round_half_even (x / u) \<le> round_half_even (y / u)" by (rule round_half_even_mono)
  then show ?thesis unfolding rx ry using u by (intro mult_right_mono) simp_all
next
  case False
  then have "ilog2 x + 1 \<le> ilog2 y" using ilog2_mono[OF assms] by simp
  then have "(2::rat) powi (ilog2 x + 1) \<le> 2 powi (ilog2 y)"
    by (intro power_int_increasing) simp_all
  moreover have "round_f64 x \<le> 2 powi (ilog2 x + 1)" using round_f64_range(2)[OF assms(1)] .
  moreover have "2 powi (ilog2 y) \<le> round_f64 y" using round_f64_range(1)[of y] assms by simp
  ultimately show ?thesis by linarith
qed

lemma round_f64_1: "round_f64 1 = 1"
  by code_simp

lemma round_f64_3840: "round_f64 3840 = 3840"
  by code_simp


lemma int_of_f64_le:
  assumes "q \<le> 3840"
  shows "int_of_f64 (Finite q) \<le> 3840"
proof -
  have "\<lfloor>q\<rfloor> \<le> 3840" using assms by (simp add: floor_le_iff)
  moreover have "\<lceil>q\<rceil> \<le> 3840" using assms by (simp add: ceiling_le_iff)
  ultimately show ?thesis by (simp add: Let_def min_int64_def)
qed

lemma f64_of_int_pos:
  assumes "0 < n"
  shows "\<exists>a. f64_of_int n = Finite a \<and> 0 < a \<and> a = round_f64 (of_int n)"
  using assms round_f64_pos[of "of_int n"] by (simp add: f64_of_int_def)

text \<open>
  C8. For positive original dimensions, the pair that
  \<^verbatim>\<open>calculateDimensionsWithMax\<close> returns for the maximum 3840 exceeds neither the
  original width and height nor 3840. The proof uses of \<^verbatim>\<open>float64\<close> only that
  rounding is monotone and leaves 1 and 3840 unchanged.
\<close>

theorem calculateDimensionsWithMax_bounds:
  assumes "0 < originalWidth" and "0 < originalHeight"
    and "calculateDimensionsWithMax originalWidth originalHeight 3840 = (w, h)"
  shows "w \<le> originalWidth \<and> h \<le> originalHeight \<and> w \<le> 3840 \<and> h \<le> 3840"
proof -
  define a where "a = round_f64 (of_int originalWidth)"
  define b where "b = round_f64 (of_int originalHeight)"
  define r where "r = round_f64 (a / b)"
  have a: "0 < a" and b: "0 < b"
    using assms(1,2) by (simp_all add: a_def b_def round_f64_pos)
  have r: "0 < r" using a b by (simp add: r_def round_f64_pos)
  have aspect: "f64_div (f64_of_int originalWidth) (f64_of_int originalHeight) = Finite r"
    using b by (simp add: f64_of_int_def a_def b_def r_def)
  have m: "f64_of_int 3840 = Finite 3840"
    by (simp add: f64_of_int_def round_f64_3840)
  show ?thesis
  proof (cases "originalWidth > originalHeight")
    case True
    have "b \<le> a" unfolding a_def b_def
      using True assms(2) by (intro round_f64_mono) simp_all
    then have "1 \<le> a / b" using b by (simp add: pos_le_divide_eq)
    then have "round_f64 1 \<le> r" unfolding r_def by (intro round_f64_mono) simp_all
    then have r1: "1 \<le> r" by (simp add: round_f64_1)
    have "3840 / r \<le> 3840" using r1 by (simp add: pos_divide_le_eq)
    moreover have "0 < 3840 / r" using r by simp
    ultimately have "round_f64 (3840 / r) \<le> round_f64 3840" by (intro round_f64_mono)
    then have q: "round_f64 (3840 / r) \<le> 3840" by (simp add: round_f64_3840)
    have "f64_div (Finite 3840) (Finite r) = Finite (round_f64 (3840 / r))"
      using r by simp
    then have nh: "int_of_f64 (f64_div (f64_of_int 3840) (Finite r)) \<le> 3840"
      unfolding m using int_of_f64_le[OF q] by (simp del: int_of_f64.simps)
    show ?thesis
      using assms(3) True nh unfolding calculateDimensionsWithMax_def aspect Let_def
      by (auto split: if_splits)
  next
    case False
    have "a \<le> b" unfolding a_def b_def
      using False assms(1) by (intro round_f64_mono) simp_all
    then have "a / b \<le> 1" using b by (simp add: pos_divide_le_eq)
    moreover have "0 < a / b" using a b by simp
    ultimately have "r \<le> round_f64 1" unfolding r_def by (intro round_f64_mono)
    then have r1: "r \<le> 1" by (simp add: round_f64_1)
    have "3840 * r \<le> 3840" using r1 by simp
    moreover have "0 < 3840 * r" using r by simp
    ultimately have "round_f64 (3840 * r) \<le> round_f64 3840" by (intro round_f64_mono)
    then have q: "round_f64 (3840 * r) \<le> 3840" by (simp add: round_f64_3840)
    have nw: "int_of_f64 (f64_mul (f64_of_int 3840) (Finite r)) \<le> 3840"
      unfolding m using int_of_f64_le[OF q] by (simp del: int_of_f64.simps)
    show ?thesis
      using assms(3) False nw unfolding calculateDimensionsWithMax_def aspect Let_def
      by (auto split: if_splits)
  qed
qed

theorem calculateDimensionsWithMax_bounds_witness:
  "(0::int) < 5000 \<and> (0::int) < 3000 \<and> calculateDimensionsWithMax 5000 3000 3840 = (3840, 2304)
   \<and> (3840::int) \<le> 5000 \<and> (2304::int) \<le> 3000 \<and> (3840::int) \<le> 3840 \<and> (2304::int) \<le> 3840"
proof -
  have c: "calculateDimensionsWithMax 5000 3000 3840 = (3840, 2304)" by code_simp
  show ?thesis using calculateDimensionsWithMax_bounds[OF _ _ c] c by simp
qed


section \<open>The asset service\<close>


lemma not_found_contains: "Contains not_found_error ''NotFound''"
  by (simp add: not_found_error_def Contains_def HasPrefix_def)

lemma ObjectExists_absent:
  "head_fault env key = None \<Longrightarrow> objects r key = None \<Longrightarrow> ObjectExists env r key = Inr False"
  by (simp add: ObjectExists_def HeadObject_def not_found_contains)



lemma ProcessFromData_absent:
  assumes "Process env (processor s) (input_Data i) (input_ContentType i) = Inr r"
    and "ObjectExists env (storage s) (Base32Key env (Data r) (GetImageExtension (ContentType r))) = Inr False"
    and "put_result env (Base32Key env (Data r) (GetImageExtension (ContentType r))) = Inr etag"
  shows "\<exists>a s'. ProcessFromData env s i = (Inr a, s') \<and> \<not> Deduped a \<and>
            Key a = Base32Key env (Data r) (GetImageExtension (ContentType r)) \<and>
            processor s' = processor s \<and>
            objects (storage s') (Key a) = Some (Data r, ContentType r) \<and>
            put_calls (storage s') = put_calls (storage s) @ [Key a]"
  using assms unfolding ProcessFromData_def Let_def Upload_def by simp


text \<open>
  The two other entry points hand what they fetched or decoded to \<^verbatim>\<open>ProcessFromData\<close>.
  A key is 26 characters with a slash after the second, followed by the extension.
\<close>

lemma ProcessFromURL_ProcessFromData:
  assumes "FetchURL env imageURL = (Inr (data, contentType), tr)"
  shows "ProcessFromURL env s imageURL
           = ProcessFromData env s \<lparr>input_Data = data, input_ContentType = contentType, SourceURL = imageURL\<rparr>"
  using assms by (simp add: ProcessFromURL_def)

lemma ProcessFromDataURI_ProcessFromData:
  assumes "parseDataURI env dataURI = Inr (data, contentType)"
  shows "ProcessFromDataURI env s dataURI
           = ProcessFromData env s \<lparr>input_Data = data, input_ContentType = contentType, SourceURL = ''data:''\<rparr>"
  using assms by (simp add: ProcessFromDataURI_def)

lemma length_groups5: "length (groups5 xs) = (length xs + 4) div 5"
  by (induction xs rule: groups5.induct) auto

lemma length_bits: "length (concat (map byte_bits bs)) = 8 * length bs"
  by (induction bs) (auto simp: byte_bits_def)

lemma length_base32: "length (base32_EncodeToString bs) = (8 * length bs + 4) div 5"
  by (simp add: base32_EncodeToString_def length_groups5 length_bits)

lemma length_hash_bytes: "length (hash_bytes h) = 32"
  by (simp add: hash_bytes_def)

lemma Base32Key_shape:
  "length (Base32Key env data ext) = 27 + length ext
   \<and> Base32Key env data ext ! 2 = CHR ''/''
   \<and> drop 27 (Base32Key env data ext) = ext"
proof -
  let ?key = "take 26 (ToLower (base32_EncodeToString (hash_bytes (Sum256 env data))))"
  have l: "length ?key = 26"
    by (simp add: ToLower_def length_base32 length_hash_bytes)
  have k: "Base32Key env data ext = take 2 ?key @ ''/'' @ drop 2 ?key @ ext"
    by (simp add: Base32Key_def Let_def)
  have t: "length (take 2 ?key) = 2" using l by simp
  have d: "length (drop 2 ?key) = 24" using l by simp
  have "length (Base32Key env data ext) = 27 + length ext"
    unfolding k using t d by simp
  moreover have "Base32Key env data ext ! 2 = CHR ''/''"
    unfolding k using t by (simp add: nth_append)
  moreover have "drop 27 (Base32Key env data ext) = ext"
    unfolding k using t d by simp
  ultimately show ?thesis by blast
qed




subsection \<open>ProcessBatch\<close>

lemma batchLoop_stops:
  assumes "batchLoop env s i acc pre = (Inr assets, s1, lg)"
    and "processItem env s1 (i + length pre) x = (Inl err, s2)"
  shows "batchLoop env s i acc (pre @ x # post)
           = (Inl (ProcessItemFailed (i + length pre) err), s2, [i..<Suc (i + length pre)])"
  using assms
proof (induction pre arbitrary: s i acc lg)
  case Nil
  then show ?case by simp
next
  case (Cons y pre)
  from Cons.prems(1) obtain a s' lg' where
    y: "processItem env s i y = (Inr a, s')"
    and rest: "batchLoop env s' (Suc i) (acc @ [a]) pre = (Inr assets, s1, lg')"
    by (auto split: prod.splits sum.splits)
  have "processItem env s1 (Suc i + length pre) x = (Inl err, s2)"
    using Cons.prems(2) by simp
  from Cons.IH[OF rest this]
  have "batchLoop env s' (Suc i) (acc @ [a]) (pre @ x # post)
          = (Inl (ProcessItemFailed (Suc i + length pre) err), s2, [Suc i..<Suc (Suc i + length pre)])" .
  moreover have "[i..<Suc (i + length (y # pre))] = i # [Suc i..<Suc (Suc i + length pre)]"
    by (simp add: upt_conv_Cons del: upt_Suc)
  ultimately show ?case using y by (simp del: upt_Suc)
qed

text \<open>
  C9. Let the items before index \<open>i\<close> be processed with success and let item \<open>i\<close> fail
  in the state they leave. Then \<^verbatim>\<open>ProcessBatch\<close> returns the error that names \<open>i\<close>
  and no assets; the service is in the state right after the failed item, and the loop
  body was entered for the indices \<open>0\<close> to \<open>i\<close> only, whatever follows in the batch.
  \<^verbatim>\<open>HandleBatch\<close> passes a batch of 1 to 20 items to \<^verbatim>\<open>ProcessBatch\<close> and answers the
  error with status 500; a batch of more than 20 items is answered with status 400, the
  service untouched and no item entered.
\<close>

theorem ProcessBatch_fail_fast:
  assumes "ProcessBatch env s pre = (Inr assets, s1, lg)"
    and "processItem env s1 (length pre) x = (Inl err, s2)"
  shows "ProcessBatch env s (pre @ x # post)
           = (Inl (ProcessItemFailed (length pre) err), s2, [0..<Suc (length pre)])
       \<and> (length (pre @ x # post) \<le> maxBatchSize \<longrightarrow>
            HandleBatch env s (Some (pre @ x # post))
              = (InternalServerError (ProcessItemFailed (length pre) err), s2, [0..<Suc (length pre)]))
       \<and> (\<forall>items. length items > maxBatchSize \<longrightarrow>
            HandleBatch env s (Some items) = (BadRequest ''Batch size too large (max 20)'', s, []))"
proof -
  have b: "ProcessBatch env s (pre @ x # post)
           = (Inl (ProcessItemFailed (length pre) err), s2, [0..<Suc (length pre)])"
    using batchLoop_stops[of env s 0 "[]" pre assets s1 lg x err s2 post] assms
    by (simp add: ProcessBatch_def)
  have "HandleBatch env s (Some (pre @ x # post))
              = (InternalServerError (ProcessItemFailed (length pre) err), s2, [0..<Suc (length pre)])"
    if "length (pre @ x # post) \<le> maxBatchSize"
    using that b by (simp add: HandleBatch_def)
  moreover have "HandleBatch env s (Some items) = (BadRequest ''Batch size too large (max 20)'', s, [])"
    if "length items > maxBatchSize" for items
    using that by (auto simp: HandleBatch_def)
  ultimately show ?thesis using b by blast
qed

lemma example_first_upload:
  "\<exists>a s'. ProcessFromData example_world example_service example_upload = (Inr a, s')"
proof -
  have "Process example_world (processor example_service) (input_Data example_upload)
             (input_ContentType example_upload)
        = Inr \<lparr>Data = 255 # example_png, ContentType = ''image/jpeg'', Width = 10, Height = 10,
          HasAlpha = False, OriginalSize = 200, CompressedSize = 201\<rparr>"
    using example_Process_opaque[of "[[93, 184, 216, 34]]" "example_response 200 0 []"] by simp
  from ProcessFromData_absent[OF this ObjectExists_absent, of "''etag''"]
  show ?thesis by auto
qed

theorem ProcessBatch_fail_fast_witness:
  "\<exists>s2. ProcessBatch example_world example_service [example_item, empty_item, example_item]
           = (Inl (ProcessItemFailed 1 (NoValidInput 1)), s2, [0, 1])
       \<and> HandleBatch example_world example_service (Some [example_item, empty_item, example_item])
           = (InternalServerError (ProcessItemFailed 1 (NoValidInput 1)), s2, [0, 1])
       \<and> HandleBatch example_world example_service (Some (replicate 21 example_item))
           = (BadRequest ''Batch size too large (max 20)'', example_service, [])"
proof -
  obtain a s1 where f: "ProcessFromData example_world example_service example_upload = (Inr a, s1)"
    using example_first_upload by blast
  have pre: "ProcessBatch example_world example_service [example_item] = (Inr [a], s1, [0])"
    using f by (simp add: ProcessBatch_def processItem_def)
  have x: "processItem example_world s1 (length [example_item]) empty_item = (Inl (NoValidInput 1), s1)"
    by (simp add: processItem_def)
  have "length ([example_item] @ empty_item # [example_item]) \<le> maxBatchSize"
    by (simp add: maxBatchSize_def)
  moreover have "length (replicate 21 example_item) > maxBatchSize"
    by (simp add: maxBatchSize_def)
  moreover have "[0..<Suc (length [example_item])] = [0, 1]"
    by (simp add: upt_conv_Cons)
  ultimately show ?thesis
    using ProcessBatch_fail_fast[OF pre x, of "[example_item]"] by auto
qed

section \<open>The HTML transformer\<close>

text \<open>
  Every match of the image expression is the tag followed by one capture, the \<^verbatim>\<open>src\<close>:
  the loop body of \<^verbatim>\<open>processImages\<close> reads both without a check.
\<close>

lemma iterate_caps:
  assumes "\<And>st st'. st' \<in> set (f st) \<Longrightarrow> length (snd (snd st')) = length (snd (snd st))"
    and "st' \<in> set (iterate g f n st)"
  shows "length (snd (snd st')) = length (snd (snd st))"
  using assms(2)
proof (induction n arbitrary: st)
  case 0
  then show ?case by simp
next
  case (Suc n)
  from Suc.prems have "st' = st \<or> (\<exists>st1 \<in> set (f st). st' \<in> set (iterate g f n st1))"
    by (auto simp: Let_def split: if_splits)
  then show ?case
  proof
    assume "st' = st"
    then show ?thesis by simp
  next
    assume "\<exists>st1 \<in> set (f st). st' \<in> set (iterate g f n st1)"
    then obtain st1 where a: "st1 \<in> set (f st)" and b: "st' \<in> set (iterate g f n st1)"
      by blast
    show ?thesis using Suc.IH[OF b] assms(1)[OF a] by simp
  qed
qed

lemma repeat_caps:
  assumes "\<And>st st'. st' \<in> set (f st) \<Longrightarrow> length (snd (snd st')) = length (snd (snd st))"
    and "st' \<in> set (repeat n f st)"
  shows "length (snd (snd st')) = length (snd (snd st))"
  using assms(2)
proof (induction n arbitrary: st)
  case 0
  then show ?case by simp
next
  case (Suc n)
  from Suc.prems obtain st1 where a: "st1 \<in> set (f st)" and b: "st' \<in> set (repeat n f st1)"
    by auto
  show ?case using Suc.IH[OF b] assms(1)[OF a] by simp
qed

lemma steps_caps:
  assumes "unrepeated r" and "st' \<in> set (steps r st)"
  shows "length (snd (snd st')) = length (snd (snd st)) + NumSubexp r"
  using assms
proof (induction r arbitrary: st st')
  case (Seq a b)
  from Seq.prems obtain st1 where 1: "st1 \<in> set (steps a st)" and 2: "st' \<in> set (steps b st1)"
    by auto
  show ?case using Seq.IH(1)[OF _ 1] Seq.IH(2)[OF _ 2] Seq.prems(1) by simp
next
  case (Star a)
  then show ?case using iterate_caps[of "steps a" st' True "length (fst (snd st))" st] by simp
next
  case (LazyStar a)
  then show ?case using iterate_caps[of "steps a" st' False "length (fst (snd st))" st] by simp
next
  case (Plus a)
  from Plus.prems obtain st1 where
    1: "st1 \<in> set (steps a st)" and 2: "st' \<in> set (iterate True (steps a) (length (fst (snd st1))) st1)"
    by auto
  have "length (snd (snd st')) = length (snd (snd st1))"
    using iterate_caps[of "steps a" st' True _ st1] 2 Plus.IH Plus.prems(1) by simp
  then show ?case using Plus.IH[OF _ 1] Plus.prems(1) by simp
next
  case (AtLeast n a)
  from AtLeast.prems obtain st1 where
    1: "st1 \<in> set (repeat n (steps a) st)"
    and 2: "st' \<in> set (iterate True (steps a) (length (fst (snd st1))) st1)"
    by auto
  have "length (snd (snd st')) = length (snd (snd st1))"
    using iterate_caps[of "steps a" st' True _ st1] 2 AtLeast.IH AtLeast.prems(1) by simp
  moreover have "length (snd (snd st1)) = length (snd (snd st))"
    using repeat_caps[of "steps a" st1 n st] 1 AtLeast.IH AtLeast.prems(1) by simp
  ultimately show ?case using AtLeast.prems(1) by simp
next
  case (Group a)
  then show ?case by (cases st) fastforce
qed (auto split: list.splits if_splits)

lemma findAll_caps:
  assumes "unrepeated r" and "(skipped', m, c) \<in> set (fst (findAll r p skipped s))"
  shows "length c = NumSubexp r"
  using assms
proof (induction r p skipped s rule: findAll.induct)
  case (1 r p skipped s)
  note u = "1.prems"(1) and mem = "1.prems"(2)
  show ?case
  proof (cases "matchAt r p s")
    case None
    show ?thesis
    proof (cases s)
      case Nil
      then show ?thesis using mem None by (simp add: findAll.simps[of r p skipped s])
    next
      case (Cons x xs)
      then have "(skipped', m, c) \<in> set (fst (findAll r (Suc p) (skipped @ [x]) xs))"
        using mem None by (simp add: findAll.simps[of r p skipped s])
      from "1.IH"(1)[OF None Cons u this] show ?thesis .
    qed
  next
    case (Some a)
    obtain n c0 where a: "a = (n, c0)" by (cases a)
    have c0: "length c0 = NumSubexp r"
    proof -
      from Some a obtain p' s' others where "steps r (p, s, []) = (p', s', c0) # others"
        by (auto simp: matchAt_def split: list.splits)
      then have "(p', s', c0) \<in> set (steps r (p, s, []))" by simp
      from steps_caps[OF u this] show ?thesis by simp
    qed
    show ?thesis
    proof (cases "s = []")
      case True
      then show ?thesis using mem Some a c0 by (simp add: findAll.simps[of r p skipped s])
    next
      case ne: False
      show ?thesis
      proof (cases "n = 0")
        case True
        then have "(skipped', m, c) = (skipped, [], c0)
                   \<or> (skipped', m, c) \<in> set (fst (findAll r (Suc p) [hd s] (tl s)))"
          using mem Some a ne by (auto simp: findAll.simps[of r p skipped s] split: prod.splits)
        then show ?thesis
          using c0 "1.IH"(2)[OF Some a[symmetric] ne True u] by auto
      next
        case False
        then have "(skipped', m, c) = (skipped, take n s, c0)
                   \<or> (skipped', m, c) \<in> set (fst (findAll r (p + n) [] (drop n s)))"
          using mem Some a ne by (auto simp: findAll.simps[of r p skipped s] split: prod.splits)
        then show ?thesis
          using c0 "1.IH"(3)[OF Some a[symmetric] ne False u] by auto
      qed
    qed
  qed
qed

lemma FindAllStringSubmatch_length:
  assumes "unrepeated r" and "m \<in> set (FindAllStringSubmatch r s)"
  shows "length m = Suc (NumSubexp r)"
  using assms findAll_caps[OF assms(1)]
  by (fastforce simp: FindAllStringSubmatch_def)

lemma imgRegex_groups: "unrepeated imgRegex \<and> NumSubexp imgRegex = 1"
  by (simp add: imgRegex_def not_gt_def quote_def not_quote_def)

lemma imgRegex_match_shape:
  assumes "m \<in> set (FindAllStringSubmatch imgRegex html)"
  shows "m = [m ! 0, m ! 1]"
proof -
  have "length m = 2"
    using FindAllStringSubmatch_length[OF _ assms] imgRegex_groups by simp
  then show ?thesis
    by (cases m; cases "tl m") auto
qed




lemma Transform_total: "\<exists>resp s'. Transform env s req = (Inr resp, s')"
  by (simp add: Transform_def split: prod.splits)







text \<open>
  On this document the first image fails and the second is rehosted: the first tag is in
  the result as it was, the second is rewritten, and the messages are in the order of the
  images.
\<close>

lemma example_processImages:
  \<open>fst (processImages example_http_world example_service example_document)
     = (''<img src="http://old.example/a.png"><img src="https://i.format.hackclub.com/aa/aaaaaaaaaaaaaaaaaaaaaaaa.jpg" alt="" style="max-width:100%;height:auto;display:block;">'',
        \<lparr>ImagesProcessed = 2, ImagesRehosted = 1, StylesRemoved = 0, ScriptsRemoved = 0\<rparr>,
        [FailedToRehostImage ''http://old.example/a.png'' (FetchImageFailed OnlyHTTPSAllowed),
         ImageRehostedFromTo ''data:image/png,abc'' ''https://i.format.hackclub.com/aa/aaaaaaaaaaaaaaaaaaaaaaaa.jpg'',
         ImageRehosted ''https://i.format.hackclub.com/aa/aaaaaaaaaaaaaaaaaaaaaaaa.jpg''])\<close>
  by code_simp

text \<open>
  C6, at an input where the code departs from it: a script block whose content spans
  lines. \<^verbatim>\<open>.\<close> does not match a newline, so the expression for script blocks finds
  nothing; the block stays in the output and \<^verbatim>\<open>ScriptsRemoved\<close> is 0.
\<close>

theorem sanitizeHTML_keeps_multiline_script:
  \<open>sanitizeHTML env ''<script>\<newline>alert(1)\<newline></script>''
     = (''<script>\<newline>alert(1)\<newline></script>'',
        \<lparr>ImagesProcessed = 0, ImagesRehosted = 0, StylesRemoved = 0, ScriptsRemoved = 0\<rparr>)\<close>
  by code_simp

text \<open>On one line, the block and the handler are removed, as in the example of the specification.\<close>

lemma sanitizeHTML_single_line_script:
  \<open>sanitizeHTML env ''<span onclick="x()">hi</span><script>alert(1)</script>''
     = (''<span>hi</span>'',
        \<lparr>ImagesProcessed = 0, ImagesRehosted = 0, StylesRemoved = 0, ScriptsRemoved = 1\<rparr>)\<close>
  by code_simp


text \<open>
  The blocks are removed in one pass, so a block that is cut in two by another block is
  put together by the removal.
\<close>

lemma sanitizeHTML_reassembles_script:
  \<open>sanitizeHTML env ''<scr<script></script>ipt>alert(1)</script>''
     = (''<script>alert(1)</script>'',
        \<lparr>ImagesProcessed = 0, ImagesRehosted = 0, StylesRemoved = 0, ScriptsRemoved = 1\<rparr>)\<close>
  by code_simp

text \<open>
  The same holds for a style block that spans lines, and a handler in single quotes is
  not matched by the expression for handlers.
\<close>

lemma sanitizeHTML_keeps_multiline_style:
  \<open>sanitizeHTML env ''<style>\<newline>b{}\<newline></style>''
     = (''<style>\<newline>b{}\<newline></style>'',
        \<lparr>ImagesProcessed = 0, ImagesRehosted = 0, StylesRemoved = 0, ScriptsRemoved = 0\<rparr>)\<close>
  by code_simp

lemma sanitizeHTML_keeps_single_quoted_handler:
  \<open>sanitizeHTML env ''<b onclick='x()'>hi</b>''
     = (''<b onclick='x()'>hi</b>'',
        \<lparr>ImagesProcessed = 0, ImagesRehosted = 0, StylesRemoved = 0, ScriptsRemoved = 0\<rparr>)\<close>
  by code_simp

end
